theory Spec2Isabelle
  imports
    Complex_Main
    "HOL-Library.Multiset"
    "HOL-Library.Char_ord"
    "HOL-Library.List_Lexorder"
    "HOL-Library.Product_Lexorder"
begin

section \<open>Values: exceptions and floating-point cells\<close>

text \<open>
  The analytics code of StatArbDash (\<^verbatim>\<open>analytics/metrics.py\<close>,
  \<^verbatim>\<open>analytics/spread.py\<close>, \<^verbatim>\<open>analytics/scanner.py\<close>) works on pandas series and
  frames of floats. A Python exception is a value of \<open>error\<close>; a function that may raise
  returns \<open>error + 'a\<close> with \<open>Inl\<close> for the exception.
\<close>

datatype error = TypeError | ValueError | KeyError | IndexError

definition bind :: "error + 'a \<Rightarrow> ('a \<Rightarrow> error + 'b) \<Rightarrow> error + 'b" where
  "bind m f = (case m of Inl e \<Rightarrow> Inl e | Inr x \<Rightarrow> f x)"

text \<open>
  A cell is a float: not-a-number, an infinity, or a finite number. Finite numbers are
  exact reals here: rounding, overflow, underflow and the sign of zero are outside this
  model, and where a claim turns on them the series that pandas returned are taken as
  given (see \<open>zscore_from\<close>). The special values follow IEEE 754 as
  numpy applies it elementwise (no exception on division by zero or on the logarithm of
  a non-positive number).
\<close>

datatype pyfloat = NaN | NInf | Fin real | PInf

fun isnan :: "pyfloat \<Rightarrow> bool" where
  "isnan NaN = True"
| "isnan _ = False"

fun isinf :: "pyfloat \<Rightarrow> bool" where
  "isinf NInf = True"
| "isinf PInf = True"
| "isinf _ = False"

fun fneg :: "pyfloat \<Rightarrow> pyfloat" where
  "fneg NaN = NaN"
| "fneg NInf = PInf"
| "fneg (Fin x) = Fin (- x)"
| "fneg PInf = NInf"

fun fabs :: "pyfloat \<Rightarrow> pyfloat" where
  "fabs NaN = NaN"
| "fabs NInf = PInf"
| "fabs (Fin x) = Fin \<bar>x\<bar>"
| "fabs PInf = PInf"

fun fadd :: "pyfloat \<Rightarrow> pyfloat \<Rightarrow> pyfloat" where
  "fadd (Fin x) (Fin y) = Fin (x + y)"
| "fadd NaN _ = NaN"
| "fadd _ NaN = NaN"
| "fadd PInf NInf = NaN"
| "fadd NInf PInf = NaN"
| "fadd PInf _ = PInf"
| "fadd _ PInf = PInf"
| "fadd NInf _ = NInf"
| "fadd _ NInf = NInf"

definition fsub :: "pyfloat \<Rightarrow> pyfloat \<Rightarrow> pyfloat" where
  "fsub a b = fadd a (fneg b)"

fun fsgn :: "pyfloat \<Rightarrow> real" where
  "fsgn NaN = 0"
| "fsgn NInf = - 1"
| "fsgn (Fin x) = sgn x"
| "fsgn PInf = 1"

definition inf_of_sign :: "real \<Rightarrow> pyfloat" where
  "inf_of_sign s = (if 0 < s then PInf else if s < 0 then NInf else NaN)"

fun fmul :: "pyfloat \<Rightarrow> pyfloat \<Rightarrow> pyfloat" where
  "fmul (Fin x) (Fin y) = Fin (x * y)"
| "fmul NaN _ = NaN"
| "fmul _ NaN = NaN"
| "fmul a b = inf_of_sign (fsgn a * fsgn b)"

fun fdiv :: "pyfloat \<Rightarrow> pyfloat \<Rightarrow> pyfloat" where
  "fdiv (Fin x) (Fin y) = (if y = 0 then inf_of_sign x else Fin (x / y))"
| "fdiv NaN _ = NaN"
| "fdiv _ NaN = NaN"
| "fdiv (Fin x) _ = Fin 0"
| "fdiv a (Fin y) = inf_of_sign (fsgn a * (if y < 0 then - 1 else 1))"
| "fdiv _ _ = NaN"

fun flog :: "pyfloat \<Rightarrow> pyfloat" where
  "flog NaN = NaN"
| "flog NInf = NaN"
| "flog (Fin x) = (if x < 0 then NaN else if x = 0 then NInf else Fin (ln x))"
| "flog PInf = PInf"

text \<open>Comparisons: every comparison with NaN is false.\<close>

fun fgt :: "pyfloat \<Rightarrow> pyfloat \<Rightarrow> bool" where
  "fgt (Fin x) (Fin y) = (y < x)"
| "fgt NaN _ = False"
| "fgt _ NaN = False"
| "fgt _ PInf = False"
| "fgt PInf _ = True"
| "fgt NInf _ = False"
| "fgt _ NInf = True"

definition flt :: "pyfloat \<Rightarrow> pyfloat \<Rightarrow> bool" where
  "flt a b = fgt b a"

definition fge :: "pyfloat \<Rightarrow> pyfloat \<Rightarrow> bool" where
  "fge a b = (\<not> isnan a \<and> \<not> isnan b \<and> \<not> fgt b a)"

text \<open>\<^verbatim>\<open>pd.isna\<close> and \<^verbatim>\<open>np.isnan\<close> on a float.\<close>

definition isna :: "pyfloat \<Rightarrow> bool" where
  "isna x = isnan x"

section \<open>Series\<close>

text \<open>
  A series is the list of its values in index order. The index of every series in the
  analytics is the price table's timestamp index, which is unique, so a label is
  identified with its position: \<^verbatim>\<open>index.get_loc\<close> of the label at position \<open>i\<close> is
  \<open>i\<close>, and a label that is not in the index is a \<^verbatim>\<open>KeyError\<close>.
\<close>

type_synonym series = "pyfloat list"

definition iloc_last :: "'a list \<Rightarrow> error + 'a" where
  "iloc_last s = (if s = [] then Inl IndexError else Inr (last s))"

definition get_loc :: "'a list \<Rightarrow> nat \<Rightarrow> error + nat" where
  "get_loc s label = (if label < length s then Inr label else Inl KeyError)"

section \<open>Bollinger breach and bars since breach\<close>

text \<open>
  \<^verbatim>\<open>_detect_bollinger_breach\<close> of \<^verbatim>\<open>scanner.py\<close>:
  \<^verbatim>\<open>(spread > upper_band) | (spread < lower_band)\<close>. pandas compares two series
  elementwise and raises \<^verbatim>\<open>ValueError\<close> unless they are identically labelled, which
  for series over the positional index means: of the same length.
\<close>

definition series_cmp ::
  "(pyfloat \<Rightarrow> pyfloat \<Rightarrow> bool) \<Rightarrow> series \<Rightarrow> series \<Rightarrow> error + bool list" where
  "series_cmp cmp xs ys =
     (if length xs \<noteq> length ys then Inl ValueError else Inr (map2 cmp xs ys))"

definition series_or :: "bool list \<Rightarrow> bool list \<Rightarrow> bool list" where
  "series_or xs ys = map2 (\<or>) xs ys"

definition detect_bollinger_breach :: "series \<Rightarrow> series \<Rightarrow> series \<Rightarrow> error + bool list" where
  "detect_bollinger_breach spread upper_band lower_band =
     bind (series_cmp fgt spread upper_band) (\<lambda>above.
     bind (series_cmp flt spread lower_band) (\<lambda>below.
     Inr (series_or above below)))"

text \<open>
  The scanner's latest breach flag, \<^verbatim>\<open>scanner.py\<close> lines 239-240:
  \<^verbatim>\<open>bool(breach.iloc[-1]) if not breach.empty else False\<close>.
\<close>

definition scanner_latest_breach :: "series \<Rightarrow> series \<Rightarrow> series \<Rightarrow> error + bool" where
  "scanner_latest_breach spread upper_band lower_band =
     bind (detect_bollinger_breach spread upper_band lower_band) (\<lambda>breach.
     Inr (if breach \<noteq> [] then last breach else False))"

text \<open>\<^verbatim>\<open>latest_boll_breach\<close> of \<^verbatim>\<open>spread.py\<close>.\<close>

definition latest_boll_breach :: "series \<Rightarrow> series \<Rightarrow> series \<Rightarrow> bool" where
  "latest_boll_breach series upper lower =
     (if series = [] \<or> upper = [] \<or> lower = [] then False
      else
        let latest_spread = last series;
            latest_upper = last upper;
            latest_lower = last lower
        in if isna latest_spread \<or> isna latest_upper \<or> isna latest_lower then False
           else fgt latest_spread latest_upper \<or> flt latest_spread latest_lower)"

text \<open>
  \<^verbatim>\<open>_compute_bars_since_breach\<close> of \<^verbatim>\<open>scanner.py\<close>. The result is a float:
  \<^verbatim>\<open>np.nan\<close>, \<^verbatim>\<open>0.0\<close> or the difference of two positions. The \<^verbatim>\<open>try\<close> around
  the two \<^verbatim>\<open>get_loc\<close> calls turns a \<^verbatim>\<open>KeyError\<close> into NaN.
\<close>

definition compute_bars_since_breach :: "bool list \<Rightarrow> pyfloat" where
  "compute_bars_since_breach breach_series =
     (if breach_series = [] then NaN
      else if last breach_series then Fin 0
      else
        let last_true_indices =
              filter (\<lambda>i. breach_series ! i) [0..<length breach_series]
        in if length last_true_indices = 0 then NaN
           else
             let last_breach_idx = last last_true_indices;
                 current_idx = length breach_series - 1
             in (case bind (get_loc breach_series last_breach_idx) (\<lambda>last_breach_pos.
                      bind (get_loc breach_series current_idx) (\<lambda>current_pos.
                      Inr (Fin (real_of_int (int current_pos - int last_breach_pos))))) of
                   Inl e \<Rightarrow> NaN
                 | Inr r \<Rightarrow> r))"

text \<open>
  \<^verbatim>\<open>compute_bars_since_breach\<close> of \<^verbatim>\<open>pages/3_Pair_Explorer.py\<close> has the same
  body, line for line.
\<close>

definition page_compute_bars_since_breach :: "bool list \<Rightarrow> pyfloat" where
  "page_compute_bars_since_breach breach_series =
     (if breach_series = [] then NaN
      else if last breach_series then Fin 0
      else
        let last_true_indices =
              filter (\<lambda>i. breach_series ! i) [0..<length breach_series]
        in if length last_true_indices = 0 then NaN
           else
             let last_breach_idx = last last_true_indices;
                 current_idx = length breach_series - 1
             in (case bind (get_loc breach_series last_breach_idx) (\<lambda>last_breach_pos.
                      bind (get_loc breach_series current_idx) (\<lambda>current_pos.
                      Inr (Fin (real_of_int (int current_pos - int last_breach_pos))))) of
                   Inl e \<Rightarrow> NaN
                 | Inr r \<Rightarrow> r))"

section \<open>The price table and the parameter set\<close>

text \<open>
  A pandas frame of floats: the number of rows, the column names, and the cell of a
  column at a row position. All columns have the same length by construction. The
  timestamp index is kept as the row positions \<open>0 ..< nrows\<close>.
\<close>

record table =
  nrows :: nat
  columns :: "string list"
  cell :: "string \<Rightarrow> nat \<Rightarrow> pyfloat"

text \<open>\<^verbatim>\<open>frame[c]\<close>: the column as a series, \<^verbatim>\<open>KeyError\<close> for a name that is no column.\<close>

definition getitem :: "table \<Rightarrow> string \<Rightarrow> error + series" where
  "getitem t c =
     (if c \<in> set (columns t) then Inr (map (cell t c) [0..<nrows t]) else Inl KeyError)"

text \<open>
  \<^verbatim>\<open>Settings\<close> of \<^verbatim>\<open>config/settings.py\<close>. The window sizes are Python ints (a negative
  one is possible and makes \<^verbatim>\<open>rolling\<close> raise); \<^verbatim>\<open>boll_k\<close> and \<^verbatim>\<open>z_entry\<close> are floats.
\<close>

record settings =
  exchange_id :: string
  timeframe :: string
  history_days_display :: int
  history_days_fetch :: int
  z_window :: int
  analytics_window :: int
  boll_k :: pyfloat
  z_entry :: pyfloat
  cache_ttl_seconds :: int

definition get_settings :: settings where
  "get_settings =
     \<lparr>exchange_id = ''binance'', timeframe = ''1h'', history_days_display = 10,
      history_days_fetch = 12, z_window = 120, analytics_window = 240,
      boll_k = Fin 2, z_entry = Fin 2, cache_ttl_seconds = 300\<rparr>"

text \<open>\<^verbatim>\<open>series.tail(n)\<close>: the last \<open>n\<close> rows; for a negative \<open>n\<close>, all rows but the first \<open>-n\<close>.\<close>

definition tail :: "'a list \<Rightarrow> int \<Rightarrow> 'a list" where
  "tail s n = (if 0 \<le> n then drop (length s - nat n) s else drop (nat (- n)) s)"

section \<open>Elementwise arithmetic and reductions\<close>

text \<open>
  Arithmetic between two series aligns them on the index; every pair of series combined
  in the analytics is derived from the same table or the same series, so the labels are
  the same and the operation is positionwise.
\<close>

definition series_sub :: "series \<Rightarrow> series \<Rightarrow> series" where
  "series_sub xs ys = map2 fsub xs ys"

definition series_add :: "series \<Rightarrow> series \<Rightarrow> series" where
  "series_add xs ys = map2 fadd xs ys"

definition series_div :: "series \<Rightarrow> series \<Rightarrow> series" where
  "series_div xs ys = map2 fdiv xs ys"

definition series_scale :: "pyfloat \<Rightarrow> series \<Rightarrow> series" where
  "series_scale k xs = map (fmul k) xs"

text \<open>The finite observations of a list of cells, and the sample variance (ddof = 1).\<close>

fun finite_vals :: "pyfloat list \<Rightarrow> real list" where
  "finite_vals [] = []"
| "finite_vals (Fin x # xs) = x # finite_vals xs"
| "finite_vals (_ # xs) = finite_vals xs"

definition mean_of :: "real list \<Rightarrow> real" where
  "mean_of obs = sum_list obs / real (length obs)"

definition sample_var :: "real list \<Rightarrow> real" where
  "sample_var obs =
     sum_list (map (\<lambda>x. (x - mean_of obs)\<^sup>2) obs) / (real (length obs) - 1)"

text \<open>
  \<^verbatim>\<open>Series.std()\<close> with pandas' defaults (skip NaN, ddof = 1): NaN for at most one
  observation. An infinite observation makes the mean infinite and the deviations
  NaN, so the result is NaN.
\<close>

definition series_std :: "series \<Rightarrow> pyfloat" where
  "series_std s =
     (let obs = filter (\<lambda>x. \<not> isnan x) s
      in if length obs \<le> 1 then NaN
         else if list_ex isinf obs then NaN
         else Fin (sqrt (sample_var (finite_vals obs))))"

text \<open>\<^verbatim>\<open>sum\<close> and \<^verbatim>\<open>mean\<close> with NaN skipped: the sum of no observation is 0, the mean NaN.\<close>

definition nansum :: "pyfloat list \<Rightarrow> pyfloat" where
  "nansum vals = foldl fadd (Fin 0) (filter (\<lambda>x. \<not> isnan x) vals)"

definition nanmean :: "pyfloat list \<Rightarrow> pyfloat" where
  "nanmean vals =
     (let obs = filter (\<lambda>x. \<not> isnan x) vals
      in if obs = [] then NaN else fdiv (foldl fadd (Fin 0) obs) (Fin (real (length obs))))"

section \<open>Rolling windows\<close>

text \<open>
  \<^verbatim>\<open>series.rolling(window=w)\<close> with pandas' defaults: a fixed window of the \<open>w\<close> rows
  ending at the current one, \<^verbatim>\<open>min_periods = w\<close>. A negative window raises
  \<^verbatim>\<open>ValueError\<close>. pandas turns infinite cells into NaN before it aggregates, and an
  aggregate is NaN unless the window holds at least \<open>min_periods\<close> observations
  (more than ddof = 1 of them for the standard deviation).
\<close>

definition window_obs :: "nat \<Rightarrow> series \<Rightarrow> nat \<Rightarrow> real list" where
  "window_obs w s i = finite_vals (drop (i + 1 - w) (take (i + 1) s))"

definition roll_mean_at :: "nat \<Rightarrow> series \<Rightarrow> nat \<Rightarrow> pyfloat" where
  "roll_mean_at w s i =
     (let obs = window_obs w s i
      in if w \<le> length obs \<and> 0 < length obs then Fin (mean_of obs) else NaN)"

definition roll_std_at :: "nat \<Rightarrow> series \<Rightarrow> nat \<Rightarrow> pyfloat" where
  "roll_std_at w s i =
     (let obs = window_obs w s i
      in if w \<le> length obs \<and> 1 < length obs then Fin (sqrt (sample_var obs)) else NaN)"

definition rolling_mean :: "series \<Rightarrow> int \<Rightarrow> error + series" where
  "rolling_mean s window =
     (if window < 0 then Inl ValueError
      else Inr (map (roll_mean_at (nat window) s) [0..<length s]))"

definition rolling_std :: "series \<Rightarrow> int \<Rightarrow> error + series" where
  "rolling_std s window =
     (if window < 0 then Inl ValueError
      else Inr (map (roll_std_at (nat window) s) [0..<length s]))"

text \<open>
  \<^verbatim>\<open>x.rolling(window).corr(y)\<close>. An observation is a row where both cells are finite;
  pandas computes
  \<^verbatim>\<open>(mean(x*y) - mean(x)*mean(y)) * n/(n-1) / sqrt(var(x) * var(y))\<close> over the window.
\<close>

fun finite_pairs :: "(pyfloat \<times> pyfloat) list \<Rightarrow> (real \<times> real) list" where
  "finite_pairs [] = []"
| "finite_pairs ((Fin x, Fin y) # ps) = (x, y) # finite_pairs ps"
| "finite_pairs (_ # ps) = finite_pairs ps"

definition roll_corr_at :: "nat \<Rightarrow> series \<Rightarrow> series \<Rightarrow> nat \<Rightarrow> pyfloat" where
  "roll_corr_at w xs ys i =
     (let obs = finite_pairs (drop (i + 1 - w) (take (i + 1) (zip xs ys)));
          n = real (length obs);
          ox = map fst obs;
          oy = map snd obs
      in if w \<le> length obs \<and> 1 < length obs
         then fdiv (Fin ((mean_of (map (\<lambda>(x, y). x * y) obs) - mean_of ox * mean_of oy)
                          * (n / (n - 1))))
                   (Fin (sqrt (sample_var ox * sample_var oy)))
         else NaN)"

definition rolling_corr_series :: "series \<Rightarrow> series \<Rightarrow> int \<Rightarrow> error + series" where
  "rolling_corr_series xs ys window =
     (if window < 0 then Inl ValueError
      else Inr (map (roll_corr_at (nat window) xs ys) [0..<length xs]))"

section \<open>Return and volatility primitives (metrics.py)\<close>

text \<open>\<^verbatim>\<open>log_returns\<close>: \<^verbatim>\<open>np.log(prices_wide / prices_wide.shift(1))\<close>; the shifted first row is NaN.\<close>

definition log_returns :: "table \<Rightarrow> table" where
  "log_returns prices_wide =
     prices_wide\<lparr>cell := \<lambda>c i.
        flog (fdiv (cell prices_wide c i) (if i = 0 then NaN else cell prices_wide c (i - 1)))\<rparr>"

text \<open>
  \<^verbatim>\<open>basket_return\<close>: \<^verbatim>\<open>ValueError\<close> when a ticker is no column of the table, else
  \<^verbatim>\<open>logret[tickers].mean(axis=1)\<close>, the mean over the tickers' cells of each row.
\<close>

definition basket_return :: "table \<Rightarrow> string list \<Rightarrow> error + series" where
  "basket_return logret tickers =
     (let missing = filter (\<lambda>t. t \<notin> set (columns logret)) tickers
      in if missing \<noteq> [] then Inl ValueError
         else Inr (map (\<lambda>i. nanmean (map (\<lambda>t. cell logret t i) tickers)) [0..<nrows logret]))"

definition basket_vol :: "series \<Rightarrow> pyfloat" where
  "basket_vol basket_ret = series_std basket_ret"

definition rolling_corr :: "table \<Rightarrow> string \<Rightarrow> string \<Rightarrow> int \<Rightarrow> error + series" where
  "rolling_corr logret a b window =
     (let missing = filter (\<lambda>col. col \<notin> set (columns logret)) [a, b]
      in if missing \<noteq> [] then Inl ValueError
         else bind (getitem logret a) (\<lambda>xa.
              bind (getitem logret b) (\<lambda>xb.
              rolling_corr_series xa xb window)))"

text \<open>\<^verbatim>\<open>pair_corr_latest\<close>: \<^verbatim>\<open>float(rolling_corr_series.iloc[-1])\<close>, with no check for emptiness.\<close>

definition pair_corr_latest :: "table \<Rightarrow> string \<Rightarrow> string \<Rightarrow> int \<Rightarrow> error + pyfloat" where
  "pair_corr_latest logret a b window =
     bind (rolling_corr logret a b window) (\<lambda>rolling_corr_series.
     iloc_last rolling_corr_series)"

section \<open>Spread and bands (spread.py)\<close>

definition spread_series :: "table \<Rightarrow> string \<Rightarrow> string \<Rightarrow> error + series" where
  "spread_series prices_wide a b =
     bind (getitem prices_wide a) (\<lambda>pa.
     bind (getitem prices_wide b) (\<lambda>pb.
     Inr (series_sub (map flog pa) (map flog pb))))"

definition zscore :: "series \<Rightarrow> int \<Rightarrow> error + series" where
  "zscore series window =
     bind (rolling_mean series window) (\<lambda>rolling_mean.
     bind (rolling_std series window) (\<lambda>rolling_std.
     Inr (series_div (series_sub series rolling_mean) rolling_std)))"

definition bollinger_bands :: "series \<Rightarrow> int \<Rightarrow> pyfloat \<Rightarrow> error + series \<times> series \<times> series" where
  "bollinger_bands series window k =
     bind (rolling_mean series window) (\<lambda>rolling_mean.
     bind (rolling_std series window) (\<lambda>rolling_std.
     let upper_band = series_add rolling_mean (series_scale k rolling_std);
         lower_band = series_sub rolling_mean (series_scale k rolling_std)
     in Inr (rolling_mean, upper_band, lower_band)))"

text \<open>
  The division of \<^verbatim>\<open>zscore\<close> (line 34 of \<^verbatim>\<open>spread.py\<close>) and of \<^verbatim>\<open>_compute_zscore\<close>
  (line 38 of \<^verbatim>\<open>scanner.py\<close>), \<^verbatim>\<open>(series - rolling_mean) / rolling_std\<close>, on the two
  series that pandas returned for the rolling mean and the rolling standard deviation.
  pandas computes them in doubles; \<open>rolling_mean\<close> and \<open>rolling_std\<close> above are their
  values without rounding. The division has no guard for a zero standard deviation.
\<close>

definition zscore_from :: "series \<Rightarrow> series \<Rightarrow> series \<Rightarrow> series" where
  "zscore_from series mean_series std_series =
     series_div (series_sub series mean_series) std_series"

section \<open>Sorting a frame\<close>

text \<open>
  \<^verbatim>\<open>DataFrame.sort_values(by, *, axis, ascending, inplace, kind, na_position,
  ignore_index, key)\<close>. The call passes its keyword arguments by name; Python raises
  \<^verbatim>\<open>TypeError\<close> for a keyword that is no parameter of the function. Of the keywords
  the model reads \<^verbatim>\<open>ascending\<close> (a bool, or one bool per sort column) and
  \<^verbatim>\<open>na_position\<close> (\<^verbatim>\<open>"last"\<close> by default); the repository passes no other.

  pandas ranks the values of each sort column, a NaN after (or before) every number
  whatever the direction, reverses the ranks of the numbers for a descending column,
  and orders the rows by their ranks, column after column. The order among rows of
  equal rank is the stable one here; nothing below depends on it.
\<close>

datatype pyval = PyBool bool | PyBoolList "bool list" | PyStr string

definition sort_values_keywords :: "string list" where
  "sort_values_keywords =
     [''by'', ''axis'', ''ascending'', ''inplace'', ''kind'', ''na_position'',
      ''ignore_index'', ''key'']"

definition float_rank :: "bool \<Rightarrow> bool \<Rightarrow> pyfloat \<Rightarrow> int \<times> real" where
  "float_rank ascending na_last x =
     (case x of
        NaN \<Rightarrow> (if na_last then 2 else - 2, 0)
      | NInf \<Rightarrow> (if ascending then - 1 else 1, 0)
      | Fin r \<Rightarrow> (0, if ascending then r else - r)
      | PInf \<Rightarrow> (if ascending then 1 else - 1, 0))"

definition kw_ascending :: "(string \<times> pyval) list \<Rightarrow> nat \<Rightarrow> error + bool list" where
  "kw_ascending kwargs n =
     (case map_of kwargs ''ascending'' of
        None \<Rightarrow> Inr (replicate n True)
      | Some (PyBool b) \<Rightarrow> Inr (replicate n b)
      | Some (PyBoolList bs) \<Rightarrow> if length bs = n then Inr bs else Inl ValueError
      | Some (PyStr v) \<Rightarrow> Inl ValueError)"

definition kw_na_last :: "(string \<times> pyval) list \<Rightarrow> error + bool" where
  "kw_na_last kwargs =
     (case map_of kwargs ''na_position'' of
        None \<Rightarrow> Inr True
      | Some (PyStr v) \<Rightarrow>
          if v = ''last'' then Inr True else if v = ''first'' then Inr False
          else Inl ValueError
      | Some (PyBool b) \<Rightarrow> Inl ValueError
      | Some (PyBoolList bs) \<Rightarrow> Inl ValueError)"

definition row_rank ::
  "('r \<Rightarrow> pyfloat) list \<Rightarrow> bool list \<Rightarrow> bool \<Rightarrow> 'r \<Rightarrow> (int \<times> real) list" where
  "row_rank by_cols ascending na_last row =
     map (\<lambda>(col, asc). float_rank asc na_last (col row)) (zip by_cols ascending)"

definition sort_values ::
  "('r \<Rightarrow> pyfloat) list \<Rightarrow> (string \<times> pyval) list \<Rightarrow> 'r list \<Rightarrow> error + 'r list" where
  "sort_values by_cols kwargs df =
     (if list_ex (\<lambda>kw. fst kw \<notin> set sort_values_keywords) kwargs then Inl TypeError
      else
        bind (kw_ascending kwargs (length by_cols)) (\<lambda>ascending.
        bind (kw_na_last kwargs) (\<lambda>na_last.
        Inr (sort_key (row_rank by_cols ascending na_last) df))))"

section \<open>The pair scan (scanner.py)\<close>

text \<open>\<^verbatim>\<open>itertools.combinations(xs, 2)\<close>: the pairs of positions \<open>i < j\<close>, in that order.\<close>

fun combinations2 :: "'a list \<Rightarrow> ('a \<times> 'a) list" where
  "combinations2 [] = []"
| "combinations2 (x # xs) = map (Pair x) xs @ combinations2 xs"

text \<open>The private helpers \<^verbatim>\<open>_compute_spread\<close>, \<^verbatim>\<open>_compute_zscore\<close>, \<^verbatim>\<open>_compute_bollinger_bands\<close>.\<close>

definition compute_spread :: "table \<Rightarrow> string \<Rightarrow> string \<Rightarrow> error + series" where
  "compute_spread prices_wide a b =
     bind (getitem prices_wide a) (\<lambda>pa.
     bind (getitem prices_wide b) (\<lambda>pb.
     Inr (series_sub (map flog pa) (map flog pb))))"

definition compute_zscore :: "series \<Rightarrow> int \<Rightarrow> error + series" where
  "compute_zscore spread window =
     bind (rolling_mean spread window) (\<lambda>rolling_mean.
     bind (rolling_std spread window) (\<lambda>rolling_std.
     Inr (series_div (series_sub spread rolling_mean) rolling_std)))"

definition compute_bollinger_bands :: "series \<Rightarrow> int \<Rightarrow> pyfloat \<Rightarrow> error + series \<times> series" where
  "compute_bollinger_bands spread window k =
     bind (rolling_mean spread window) (\<lambda>rolling_mean.
     bind (rolling_std spread window) (\<lambda>rolling_std.
     let upper_band = series_add rolling_mean (series_scale k rolling_std);
         lower_band = series_sub rolling_mean (series_scale k rolling_std)
     in Inr (upper_band, lower_band)))"

text \<open>One row of the pair table: the columns a, b, z, boll_breach, bars_since_breach, corr, spread_vol.\<close>

record pair_row =
  row_a :: string
  row_b :: string
  row_z :: pyfloat
  row_boll_breach :: bool
  row_bars_since_breach :: pyfloat
  row_corr :: pyfloat
  row_spread_vol :: pyfloat

text \<open>
  The body of the \<^verbatim>\<open>try\<close> in \<^verbatim>\<open>scan_pairs_in_basket\<close> (lines 232-260): the row of
  one pair, or the exception that makes the loop skip the pair.
\<close>

definition latest_or_nan :: "series \<Rightarrow> pyfloat" where
  "latest_or_nan s = (if s \<noteq> [] \<and> \<not> isna (last s) then last s else NaN)"

definition pair_metrics ::
  "table \<Rightarrow> table \<Rightarrow> settings \<Rightarrow> string \<Rightarrow> string \<Rightarrow> error + pair_row" where
  "pair_metrics prices_wide logret settings a b =
     bind (compute_spread prices_wide a b) (\<lambda>spread.
     bind (compute_zscore spread (z_window settings)) (\<lambda>zscore.
     let latest_z = latest_or_nan zscore in
     bind (compute_bollinger_bands spread (z_window settings) (boll_k settings))
       (\<lambda>(upper_band, lower_band).
     bind (detect_bollinger_breach spread upper_band lower_band) (\<lambda>breach.
     let latest_breach = (if breach \<noteq> [] then last breach else False);
         bars_since = compute_bars_since_breach breach in
     bind (pair_corr_latest logret a b (analytics_window settings)) (\<lambda>corr_value.
     bind (rolling_std spread (analytics_window settings)) (\<lambda>rolling_std.
     let spread_vol_value = latest_or_nan rolling_std in
     Inr \<lparr>row_a = a, row_b = b, row_z = latest_z, row_boll_breach = latest_breach,
          row_bars_since_breach = bars_since, row_corr = corr_value,
          row_spread_vol = spread_vol_value\<rparr>))))))"

text \<open>The loop over the pairs (lines 226-262): a pair with a missing column or a failing row is skipped.\<close>

fun scan_pairs_loop ::
  "table \<Rightarrow> table \<Rightarrow> settings \<Rightarrow> (string \<times> string) list \<Rightarrow> pair_row list" where
  "scan_pairs_loop prices_wide logret settings [] = []"
| "scan_pairs_loop prices_wide logret settings ((a, b) # pairs) =
     (if a \<notin> set (columns prices_wide) \<or> b \<notin> set (columns prices_wide)
      then scan_pairs_loop prices_wide logret settings pairs
      else case pair_metrics prices_wide logret settings a b of
             Inl e \<Rightarrow> scan_pairs_loop prices_wide logret settings pairs
           | Inr row \<Rightarrow> row # scan_pairs_loop prices_wide logret settings pairs)"

text \<open>
  \<^verbatim>\<open>scan_pairs_in_basket\<close>. The final sort is outside every \<^verbatim>\<open>try\<close>; line 269 calls
  \<^verbatim>\<open>df.sort_values("abs_z", ascending=False, na_last=True)\<close>.
\<close>

definition scan_pairs :: "string list \<Rightarrow> (string \<times> string) list" where
  "scan_pairs basket_tickers = combinations2 basket_tickers"

definition scan_pairs_in_basket ::
  "table \<Rightarrow> string list \<Rightarrow> settings \<Rightarrow> error + pair_row list" where
  "scan_pairs_in_basket prices_wide basket_tickers settings =
     (let logret = log_returns prices_wide;
          pairs = scan_pairs basket_tickers;
          df = scan_pairs_loop prices_wide logret settings pairs
      in if df \<noteq> []
         then sort_values [\<lambda>row. fabs (row_z row)]
                [(''ascending'', PyBool False), (''na_last'', PyBool True)] df
         else Inr df)"

section \<open>Symbol normalisation (data/ccxt_data.py)\<close>

text \<open>
  \<^verbatim>\<open>to_ccxt_symbol\<close> on ASCII strings: \<^verbatim>\<open>strip\<close>, \<^verbatim>\<open>upper\<close>, then the suffix rules.
  The argument is a string, so the \<^verbatim>\<open>None\<close> branch does not arise.
\<close>

definition is_space :: "char \<Rightarrow> bool" where
  "is_space c =
     (c \<in> set [CHR 0x09, CHR 0x0A, CHR 0x0B, CHR 0x0C, CHR 0x0D,
               CHR 0x1C, CHR 0x1D, CHR 0x1E, CHR 0x1F, CHR 0x20])"

definition str_strip :: "string \<Rightarrow> string" where
  "str_strip s = rev (dropWhile is_space (rev (dropWhile is_space s)))"

definition upper_char :: "char \<Rightarrow> char" where
  "upper_char c =
     (case map_of (zip ''abcdefghijklmnopqrstuvwxyz'' ''ABCDEFGHIJKLMNOPQRSTUVWXYZ'') c of
        Some u \<Rightarrow> u
      | None \<Rightarrow> c)"

definition str_upper :: "string \<Rightarrow> string" where
  "str_upper s = map upper_char s"

definition endswith :: "string \<Rightarrow> string \<Rightarrow> bool" where
  "endswith s suffix =
     (length suffix \<le> length s \<and> drop (length s - length suffix) s = suffix)"

definition to_ccxt_symbol :: "string \<Rightarrow> string" where
  "to_ccxt_symbol raw =
     (let s = str_upper (str_strip raw)
      in if CHR ''/'' \<in> set s then s
         else if endswith s ''BTC'' \<and> 3 < length s
           then take (length s - 3) s @ ''/BTC''
         else if endswith s ''USDT'' then take (length s - 4) s @ ''/USDT:USDT''
         else if endswith s ''USD'' then take (length s - 3) s @ ''/USDT:USDT''
         else s)"

definition normalize_symbols :: "string list \<Rightarrow> string list" where
  "normalize_symbols symbols = map to_ccxt_symbol symbols"

section \<open>The basket scan (scanner.py)\<close>

text \<open>One row of the basket summary: basket, n_tickers, basket_vol, opp_count, top_movers.\<close>

record basket_row =
  br_basket :: string
  br_n_tickers :: nat
  br_basket_vol :: pyfloat
  br_opp_count :: nat
  br_top_movers :: string

text \<open>Lines 143-154: the volatility of the basket return; any exception gives NaN.\<close>

definition basket_vol_value :: "table \<Rightarrow> string list \<Rightarrow> settings \<Rightarrow> pyfloat" where
  "basket_vol_value logret valid_tickers settings =
     (case basket_return logret valid_tickers of
        Inl e \<Rightarrow> NaN
      | Inr basket_ret \<Rightarrow>
          if analytics_window settings \<le> int (length basket_ret) then
            let recent_basket_ret = tail basket_ret (analytics_window settings)
            in if 1 < length recent_basket_ret then series_std recent_basket_ret else NaN
          else if 1 < length basket_ret then series_std basket_ret
          else NaN)"

text \<open>Lines 165-177: whether one pair counts as an opportunity, or the exception that skips it.\<close>

definition pair_opportunity :: "table \<Rightarrow> settings \<Rightarrow> string \<Rightarrow> string \<Rightarrow> error + bool" where
  "pair_opportunity prices_wide settings a b =
     bind (spread_series prices_wide a b) (\<lambda>spread.
     bind (zscore spread (z_window settings)) (\<lambda>zscore_series.
     bind (bollinger_bands spread (z_window settings) (boll_k settings))
       (\<lambda>(mid, upper_band, lower_band).
     let latest_breach = latest_boll_breach spread upper_band lower_band
     in Inr (if zscore_series \<noteq> [] \<and> \<not> isna (last zscore_series)
             then fge (fabs (last zscore_series)) (z_entry settings) \<and> latest_breach
             else False))))"

fun count_opportunities :: "table \<Rightarrow> settings \<Rightarrow> (string \<times> string) list \<Rightarrow> nat" where
  "count_opportunities prices_wide settings [] = 0"
| "count_opportunities prices_wide settings ((a, b) # pairs) =
     (case pair_opportunity prices_wide settings a b of
        Inl e \<Rightarrow> count_opportunities prices_wide settings pairs
      | Inr opp \<Rightarrow>
          (if opp then 1 else 0) + count_opportunities prices_wide settings pairs)"

text \<open>
  Lines 179-192: the three tickers with the largest sum of absolute log returns over
  the last \<^verbatim>\<open>lookback_bars\<close> rows, joined by a comma and a space; empty on no data or on
  any exception.
\<close>

definition nlargest :: "nat \<Rightarrow> (string \<times> pyfloat) list \<Rightarrow> (string \<times> pyfloat) list" where
  "nlargest n s = take n (sort_key (\<lambda>entry. float_rank False True (snd entry)) s)"

fun join :: "string \<Rightarrow> string list \<Rightarrow> string" where
  "join sep [] = []"
| "join sep [x] = x"
| "join sep (x # y # xs) = x @ sep @ join sep (y # xs)"

definition top_movers_value :: "table \<Rightarrow> string list \<Rightarrow> int \<Rightarrow> string" where
  "top_movers_value logret valid_tickers lookback_bars =
     (if list_ex (\<lambda>t. t \<notin> set (columns logret)) valid_tickers then []
      else
        let rows = (if lookback_bars \<le> int (nrows logret)
                    then tail [0..<nrows logret] lookback_bars
                    else [0..<nrows logret])
        in if valid_tickers \<noteq> [] \<and> rows \<noteq> [] then
             let abs_returns =
                   map (\<lambda>t. (t, nansum (map (\<lambda>i. fabs (cell logret t i)) rows))) valid_tickers;
                 top_3 = nlargest 3 abs_returns
             in join '', '' (map fst top_3)
           else [])"

text \<open>The body of the loop over the baskets (lines 123-200).\<close>

definition valid_tickers_of :: "table \<Rightarrow> string list \<Rightarrow> string list" where
  "valid_tickers_of prices_wide tickers_raw =
     filter (\<lambda>t. t \<in> set (columns prices_wide)) (normalize_symbols tickers_raw)"

definition scan_basket_row ::
  "table \<Rightarrow> table \<Rightarrow> settings \<Rightarrow> int \<Rightarrow> string \<Rightarrow> string list \<Rightarrow> basket_row" where
  "scan_basket_row prices_wide logret settings lookback_bars basket_name tickers_raw =
     (let valid_tickers = valid_tickers_of prices_wide tickers_raw;
          n_tickers = length valid_tickers
      in if n_tickers < 2
         then \<lparr>br_basket = basket_name, br_n_tickers = n_tickers, br_basket_vol = NaN,
               br_opp_count = 0, br_top_movers = []\<rparr>
         else
           let vol = basket_vol_value logret valid_tickers settings;
               pairs = combinations2 valid_tickers;
               has_enough_data = (z_window settings \<le> int (nrows prices_wide));
               opp_count = (if has_enough_data
                            then count_opportunities prices_wide settings pairs else 0);
               top_movers = top_movers_value logret valid_tickers lookback_bars
           in \<lparr>br_basket = basket_name, br_n_tickers = n_tickers, br_basket_vol = vol,
                br_opp_count = opp_count, br_top_movers = top_movers\<rparr>)"

text \<open>
  \<^verbatim>\<open>scan_baskets\<close>. The baskets are the items of a dict, in order. Line 205 sorts by
  \<^verbatim>\<open>["basket_vol", "opp_count"]\<close> with \<^verbatim>\<open>ascending=[False, False], na_position="last"\<close>.
\<close>

definition scan_baskets ::
  "table \<Rightarrow> (string \<times> string list) list \<Rightarrow> settings \<Rightarrow> int \<Rightarrow> error + basket_row list" where
  "scan_baskets prices_wide baskets settings lookback_bars =
     (let logret = log_returns prices_wide;
          results = map (\<lambda>(basket_name, tickers_raw).
                      scan_basket_row prices_wide logret settings lookback_bars
                        basket_name tickers_raw) baskets
      in if results \<noteq> []
         then sort_values [br_basket_vol, \<lambda>row. Fin (real (br_opp_count row))]
                [(''ascending'', PyBoolList [False, False]), (''na_position'', PyStr ''last'')]
                results
         else Inr results)"

section \<open>The Pair Explorer page (pages/3_Pair_Explorer.py)\<close>

text \<open>Lines 123-125: the pairs of the page, over \<^verbatim>\<open>sorted(valid_tickers)\<close>.\<close>

definition page_pairs :: "string list \<Rightarrow> (string \<times> string) list" where
  "page_pairs valid_tickers = combinations2 (sort valid_tickers)"

text \<open>
  Lines 194-218: the filters and the sort of the page's table. A row of the page has
  the columns of the scanner's row and the opportunity flag.
\<close>

record page_row = pair_row +
  row_opportunity :: bool

datatype sort_option = AbsZDesc | MostRecentBreach | CorrelationDesc | SpreadVolDesc

definition page_df_view ::
  "page_row list \<Rightarrow> bool \<Rightarrow> pyfloat \<Rightarrow> pyfloat \<Rightarrow> sort_option \<Rightarrow> error + page_row list" where
  "page_df_view df_all only_opportunities min_correlation min_abs_z sort_by =
     (let df1 = (if only_opportunities then filter row_opportunity df_all else df_all);
          df2 = filter (\<lambda>row. fge (row_corr row) min_correlation) df1;
          df3 = filter (\<lambda>row. fge (fabs (row_z row)) min_abs_z) df2
      in case sort_by of
           AbsZDesc \<Rightarrow>
             sort_values [\<lambda>row. fabs (row_z row)]
               [(''ascending'', PyBool False), (''na_position'', PyStr ''last'')] df3
         | MostRecentBreach \<Rightarrow>
             sort_values [row_bars_since_breach]
               [(''ascending'', PyBool True), (''na_position'', PyStr ''last'')] df3
         | CorrelationDesc \<Rightarrow>
             sort_values [row_corr]
               [(''ascending'', PyBool False), (''na_position'', PyStr ''last'')] df3
         | SpreadVolDesc \<Rightarrow>
             sort_values [row_spread_vol]
               [(''ascending'', PyBool False), (''na_position'', PyStr ''last'')] df3)"

section \<open>Concrete inputs\<close>

text \<open>
  Price tables and baskets used to evaluate the functions: a table with one bar of
  history, a table with three bars of constant prices, a log-return table with no
  row, a small log-return table, and two baskets of \<^verbatim>\<open>config/universe.py\<close>.
\<close>

definition one_bar_prices :: table where
  "one_bar_prices =
     \<lparr>nrows = 1, columns = [''BTC/USDT:USDT'', ''ETC/USDT:USDT'', ''ETH/USDT:USDT''],
      cell = (\<lambda>c i. Fin 1)\<rparr>"

definition flat_prices :: table where
  "flat_prices =
     \<lparr>nrows = 3, columns = [''BTC/USDT:USDT'', ''ETH/USDT:USDT''], cell = (\<lambda>c i. Fin 1)\<rparr>"

definition empty_logret :: table where
  "empty_logret =
     \<lparr>nrows = 0, columns = [''BTC/USDT:USDT'', ''ETH/USDT:USDT''], cell = (\<lambda>c i. NaN)\<rparr>"

definition sample_logret :: table where
  "sample_logret =
     \<lparr>nrows = 2, columns = [''BTC/USDT:USDT'', ''ETH/USDT:USDT''],
      cell = (\<lambda>c i. if i = 0 then NaN else if c = ''BTC/USDT:USDT'' then Fin 2 else Fin 4)\<rparr>"

definition two_baskets :: "(string \<times> string list) list" where
  "two_baskets =
     [(''fan_tokens'', [''CHZUSD'', ''ASRUSD'', ''BTCUSD'']),
      (''eth_l1_core'', [''ETHUSD'', ''ETCUSD'', ''BTCUSD''])]"

section \<open>Properties of bars since breach\<close>

lemma last_true_indices_split:
  assumes "i < length bs" and "bs ! i"
    and "\<forall>j. i < j \<and> j < length bs \<longrightarrow> \<not> bs ! j"
  shows "filter (\<lambda>k. bs ! k) [0..<length bs] = filter (\<lambda>k. bs ! k) [0..<i] @ [i]"
proof -
  have "[0..<i + (length bs - i)] = [0..<i] @ [i..<i + (length bs - i)]"
    by (rule upt_add_eq_append) simp
  then have "[0..<length bs] = [0..<i] @ [i..<length bs]"
    using assms(1) by simp
  then have split: "[0..<length bs] = [0..<i] @ [i] @ [Suc i..<length bs]"
    using assms(1) by (simp add: upt_conv_Cons)
  have "filter (\<lambda>k. bs ! k) [Suc i..<length bs] = []"
    using assms(3) by (auto simp: filter_empty_conv)
  then show ?thesis using assms(2) by (simp add: split)
qed

lemma bars_since_breach_distance:
  assumes "i < length bs" and "bs ! i"
    and "\<forall>j. i < j \<and> j < length bs \<longrightarrow> \<not> bs ! j"
  shows "compute_bars_since_breach bs = Fin (real (length bs - 1 - i))"
proof (cases "last bs")
  case True
  have ne: "bs \<noteq> []" using assms(1) by auto
  have "i = length bs - 1"
  proof (rule ccontr)
    assume "i \<noteq> length bs - 1"
    then have "i < length bs - 1" using assms(1) by simp
    then have "\<not> bs ! (length bs - 1)" using assms(3) ne by simp
    then show False using True ne by (simp add: last_conv_nth)
  qed
  then show ?thesis using True ne by (simp add: compute_bars_since_breach_def)
next
  case False
  have ne: "bs \<noteq> []" using assms(1) by auto
  have f: "filter (\<lambda>k. bs ! k) [0..<length bs] = filter (\<lambda>k. bs ! k) [0..<i] @ [i]"
    by (rule last_true_indices_split[OF assms])
  show ?thesis using False ne assms(1)
    by (simp add: compute_bars_since_breach_def f get_loc_def bind_def Let_def)
qed

lemma bars_since_breach_never:
  assumes "True \<notin> set bs"
  shows "compute_bars_since_breach bs = NaN"
proof -
  have "filter (\<lambda>k. bs ! k) [0..<length bs] = []"
    using assms by (auto simp: filter_empty_conv) (metis nth_mem)
  moreover have "bs \<noteq> [] \<Longrightarrow> \<not> last bs" using assms by (metis last_in_set)
  ultimately show ?thesis by (simp add: compute_bars_since_breach_def)
qed

lemma page_compute_bars_since_breach_eq:
  "page_compute_bars_since_breach bs = compute_bars_since_breach bs"
  by (simp add: page_compute_bars_since_breach_def compute_bars_since_breach_def)

text \<open>
  Claim C2. For every boolean breach series \<open>bs\<close>, bars-since-breach is \<open>0\<close> when the last
  element is true; it is the distance \<open>length bs - 1 - i\<close> from the last true position
  \<open>i\<close> to the last position; it is NaN when the series is empty or holds no true element.
  The series \<open>[F, F, T, F, F]\<close> gives \<open>2\<close> and \<open>[F, F, F]\<close> gives NaN. The copy in the
  Pair Explorer page computes the same value.
\<close>

theorem bars_since_breach_spec:
  "compute_bars_since_breach [] = NaN \<and>
   (bs \<noteq> [] \<and> last bs \<longrightarrow> compute_bars_since_breach bs = Fin 0) \<and>
   (i < length bs \<and> bs ! i \<and> (\<forall>j. i < j \<and> j < length bs \<longrightarrow> \<not> bs ! j) \<longrightarrow>
      compute_bars_since_breach bs = Fin (real (length bs - 1 - i))) \<and>
   (True \<notin> set bs \<longrightarrow> compute_bars_since_breach bs = NaN) \<and>
   compute_bars_since_breach [False, False, True, False, False] = Fin 2 \<and>
   compute_bars_since_breach [False, False, False] = NaN \<and>
   page_compute_bars_since_breach bs = compute_bars_since_breach bs"
proof -
  have "compute_bars_since_breach [] = NaN"
    by (simp add: compute_bars_since_breach_def)
  moreover have "bs \<noteq> [] \<and> last bs \<longrightarrow> compute_bars_since_breach bs = Fin 0"
    by (simp add: compute_bars_since_breach_def)
  moreover have "i < length bs \<and> bs ! i \<and> (\<forall>j. i < j \<and> j < length bs \<longrightarrow> \<not> bs ! j) \<longrightarrow>
      compute_bars_since_breach bs = Fin (real (length bs - 1 - i))"
    using bars_since_breach_distance by blast
  moreover have "True \<notin> set bs \<longrightarrow> compute_bars_since_breach bs = NaN"
    using bars_since_breach_never by blast
  moreover have "compute_bars_since_breach [False, False, True, False, False] = Fin 2"
    by (simp add: compute_bars_since_breach_def get_loc_def bind_def upt_rec)
  moreover have "compute_bars_since_breach [False, False, False] = NaN"
    by (simp add: compute_bars_since_breach_def get_loc_def bind_def upt_rec)
  ultimately show ?thesis
    by (simp add: page_compute_bars_since_breach_eq)
qed

theorem bars_since_breach_spec_witness:
  "compute_bars_since_breach [False, True, False, False, False] = Fin 3 \<and>
   compute_bars_since_breach [False, True] = Fin 0 \<and>
   compute_bars_since_breach [False, False] = NaN"
proof -
  have h1: "\<forall>j. 1 < j \<and> j < length [False, True, False, False, False] \<longrightarrow>
      \<not> [False, True, False, False, False] ! j"
    by (auto simp: nth_Cons')
  have "compute_bars_since_breach [False, True, False, False, False] = Fin 3"
    using h1 bars_since_breach_spec [of "[False, True, False, False, False]" 1] by simp
  moreover have "compute_bars_since_breach [False, True] = Fin 0"
    using bars_since_breach_spec [of "[False, True]" 0] by simp
  moreover have "compute_bars_since_breach [False, False] = NaN"
    using bars_since_breach_spec [of "[False, False]" 0] by simp
  ultimately show ?thesis by simp
qed

section \<open>The latest Bollinger breach on the two paths\<close>

lemma last_map2:
  "xs \<noteq> [] \<Longrightarrow> length xs = length ys \<Longrightarrow> last (map2 f xs ys) = f (last xs) (last ys)"
proof (induction xs arbitrary: ys)
  case Nil
  then show ?case by simp
next
  case (Cons x xs)
  then obtain y ys' where ys: "ys = y # ys'" by (cases ys) auto
  show ?case
  proof (cases "xs = []")
    case True
    then show ?thesis using Cons.prems ys by simp
  next
    case False
    then have "ys' \<noteq> []" using Cons.prems ys by auto
    then show ?thesis using Cons.IH[of ys'] Cons.prems ys False by simp
  qed
qed

lemma fgt_isnan: "isnan a \<Longrightarrow> \<not> fgt a b" "isnan b \<Longrightarrow> \<not> fgt a b"
  by (cases a; cases b; simp)+

lemma detect_bollinger_breach_same_length:
  assumes "length upper = length spread" and "length lower = length spread"
  shows "detect_bollinger_breach spread upper lower =
     Inr (map2 (\<or>) (map2 fgt spread upper) (map2 flt spread lower))"
  using assms
  by (simp add: detect_bollinger_breach_def series_cmp_def series_or_def bind_def)

lemma last_breach_elementwise:
  assumes "spread \<noteq> []" and "length upper = length spread" and "length lower = length spread"
  shows "last (map2 (\<or>) (map2 fgt spread upper) (map2 flt spread lower))
      = (fgt (last spread) (last upper) \<or> flt (last spread) (last lower))"
proof -
  have n1: "map2 fgt spread upper \<noteq> []"
    using assms by (cases spread; cases upper) auto
  have "last (map2 (\<or>) (map2 fgt spread upper) (map2 flt spread lower))
      = (last (map2 fgt spread upper) \<or> last (map2 flt spread lower))"
    using n1 assms by (intro last_map2) simp_all
  then show ?thesis using assms by (simp add: last_map2)
qed

lemma scanner_latest_breach_value:
  assumes "spread \<noteq> []" and "length upper = length spread" and "length lower = length spread"
  shows "scanner_latest_breach spread upper lower
      = Inr (fgt (last spread) (last upper) \<or> flt (last spread) (last lower))"
proof -
  have "map2 (\<or>) (map2 fgt spread upper) (map2 flt spread lower) \<noteq> []"
    using assms by (cases spread; cases upper; cases lower) auto
  then show ?thesis
    using assms
    by (simp add: scanner_latest_breach_def detect_bollinger_breach_same_length bind_def
        last_breach_elementwise)
qed

lemma latest_boll_breach_value:
  assumes "spread \<noteq> []" and "length upper = length spread" and "length lower = length spread"
  shows "latest_boll_breach spread upper lower
      = (\<not> isnan (last spread) \<and> \<not> isnan (last upper) \<and> \<not> isnan (last lower) \<and>
         (fgt (last spread) (last upper) \<or> flt (last spread) (last lower)))"
proof -
  have "upper \<noteq> []" and "lower \<noteq> []" using assms by auto
  then show ?thesis using assms
    by (auto simp: latest_boll_breach_def Let_def isna_def)
qed

text \<open>
  Claim C10, as stated, is false: for arbitrary band series the two paths differ when
  exactly one of the latest bands is NaN and the other band is crossed. With the latest
  spread \<open>0\<close>, upper band NaN and lower band \<open>1\<close>, the elementwise breach is true
  (\<open>0 < 1\<close>) while \<^verbatim>\<open>latest_boll_breach\<close> returns false.
\<close>

theorem latest_breach_paths_differ:
  "scanner_latest_breach [Fin 0] [NaN] [Fin 1] = Inr True \<and>
   latest_boll_breach [Fin 0] [NaN] [Fin 1] = False"
  by (simp add: scanner_latest_breach_def detect_bollinger_breach_def series_cmp_def
      series_or_def bind_def latest_boll_breach_def isna_def flt_def)

text \<open>
  Claim C10, amended. For every non-empty spread series with upper and lower band series
  over the same index whose latest band values are both NaN or both numbers,
  \<^verbatim>\<open>latest_boll_breach\<close> returns the boolean that the scanner reads off the last
  element of the elementwise breach series: false when the latest spread or the latest
  bands are NaN, and otherwise true exactly for a strict excursion outside the bands.
\<close>

theorem latest_breach_paths_agree:
  assumes "spread \<noteq> []" and "length upper = length spread" and "length lower = length spread"
    and "isnan (last upper) = isnan (last lower)"
  shows "scanner_latest_breach spread upper lower = Inr (latest_boll_breach spread upper lower) \<and>
         latest_boll_breach spread upper lower
           = (\<not> isnan (last spread) \<and> \<not> isnan (last upper) \<and> \<not> isnan (last lower) \<and>
              (fgt (last spread) (last upper) \<or> flt (last spread) (last lower)))"
proof -
  have "(fgt (last spread) (last upper) \<or> flt (last spread) (last lower))
      = (\<not> isnan (last spread) \<and> \<not> isnan (last upper) \<and> \<not> isnan (last lower) \<and>
         (fgt (last spread) (last upper) \<or> flt (last spread) (last lower)))"
    using assms(4) by (auto simp: flt_def fgt_isnan)
  then show ?thesis
    using scanner_latest_breach_value[OF assms(1-3)] latest_boll_breach_value[OF assms(1-3)]
    by simp
qed

theorem latest_breach_paths_agree_witness:
  "scanner_latest_breach [Fin 0, Fin 3] [NaN, Fin 2] [NaN, Fin (- 2)] = Inr True \<and>
   latest_boll_breach [Fin 0, Fin 3] [NaN, Fin 2] [NaN, Fin (- 2)] = True \<and>
   scanner_latest_breach [Fin 0, Fin 3] [NaN, NaN] [NaN, NaN] = Inr False \<and>
   latest_boll_breach [Fin 0, Fin 3] [NaN, NaN] [NaN, NaN] = False"
  using latest_breach_paths_agree [of "[Fin 0, Fin 3]" "[NaN, Fin 2]" "[NaN, Fin (- 2)]"]
    latest_breach_paths_agree [of "[Fin 0, Fin 3]" "[NaN, NaN]" "[NaN, NaN]"]
  by simp

text \<open>
  The bands that the code computes from a spread satisfy the side condition: the
  rolling mean is never infinite, so \<open>mean + k * std\<close> and \<open>mean - k * std\<close> are NaN
  together.
\<close>

lemma roll_mean_at_not_inf: "\<not> isinf (roll_mean_at w s i)"
  by (simp add: roll_mean_at_def Let_def)

lemma band_nan_same: "\<not> isinf m \<Longrightarrow> isnan (fadd m x) = isnan (fsub m x)"
  by (cases m; cases x) (simp_all add: fsub_def)

lemma rolling_lengths:
  "rolling_mean s w = Inr m \<Longrightarrow> length m = length s"
  "rolling_std s w = Inr sd \<Longrightarrow> length sd = length s"
  by (auto simp: rolling_mean_def rolling_std_def split: if_splits)

lemma compute_bollinger_bands_shape:
  assumes "compute_bollinger_bands spread w k = Inr (u, l)"
  shows "length u = length spread \<and> length l = length spread \<and>
         (spread \<noteq> [] \<longrightarrow> isnan (last u) = isnan (last l))"
proof -
  obtain m sd where m: "rolling_mean spread w = Inr m" and sd: "rolling_std spread w = Inr sd"
    and u: "u = series_add m (series_scale k sd)" and l: "l = series_sub m (series_scale k sd)"
    using assms by (auto simp: compute_bollinger_bands_def bind_def Let_def split: sum.splits)
  have lm: "length m = length spread" and ls: "length sd = length spread"
    using rolling_lengths m sd by auto
  have len: "length u = length spread" "length l = length spread"
    using lm ls by (simp_all add: u l series_add_def series_sub_def series_scale_def)
  have "isnan (last u) = isnan (last l)" if ne: "spread \<noteq> []"
  proof -
    have mne: "m \<noteq> []" using ne lm by auto
    have lk: "length m = length (series_scale k sd)" using lm ls by (simp add: series_scale_def)
    have "last m = roll_mean_at (nat w) spread (length spread - 1)"
      using m ne by (auto simp: rolling_mean_def last_map last_upt split: if_splits)
    then have ni: "\<not> isinf (last m)" by (simp add: roll_mean_at_not_inf)
    have "last u = fadd (last m) (last (series_scale k sd))"
      using mne lk by (simp add: u series_add_def last_map2)
    moreover have "last l = fsub (last m) (last (series_scale k sd))"
      using mne lk by (simp add: l series_sub_def last_map2)
    ultimately show ?thesis using band_nan_same[OF ni] by simp
  qed
  then show ?thesis using len by simp
qed

lemma bollinger_bands_eq_compute:
  "bollinger_bands spread w k = Inr (m, u, l) \<Longrightarrow> compute_bollinger_bands spread w k = Inr (u, l)"
  by (auto simp: bollinger_bands_def compute_bollinger_bands_def bind_def Let_def split: sum.splits)

lemma computed_bands_latest_breach_agree:
  assumes "bollinger_bands spread w k = Inr (m, u, l)" and "spread \<noteq> []"
  shows "scanner_latest_breach spread u l = Inr (latest_boll_breach spread u l)"
proof -
  have sh: "length u = length spread \<and> length l = length spread \<and> isnan (last u) = isnan (last l)"
    using compute_bollinger_bands_shape[OF bollinger_bands_eq_compute[OF assms(1)]] assms(2)
    by simp
  have "(fgt (last spread) (last u) \<or> flt (last spread) (last l))
      = (\<not> isnan (last spread) \<and> \<not> isnan (last u) \<and> \<not> isnan (last l) \<and>
         (fgt (last spread) (last u) \<or> flt (last spread) (last l)))"
    using sh by (auto simp: flt_def fgt_isnan)
  then show ?thesis
    using scanner_latest_breach_value[of spread u l] latest_boll_breach_value[of spread u l]
      sh assms(2)
    by simp
qed

section \<open>Enumerating the pairs of a basket\<close>

lemma length_combinations2:
  "length (combinations2 xs) = length xs * (length xs - 1) div 2"
proof (induction xs)
  case Nil
  then show ?case by simp
next
  case (Cons x xs)
  have "even (length xs * (length xs - 1))" by (cases "length xs") auto
  then have "length xs + length xs * (length xs - 1) div 2 = (length xs + 1) * length xs div 2"
    by (cases "length xs") (auto simp: algebra_simps elim!: evenE)
  then show ?case using Cons by simp
qed

lemma set_combinations2_subset:
  "(a, b) \<in> set (combinations2 xs) \<Longrightarrow> a \<in> set xs \<and> b \<in> set xs"
  by (induction xs) auto

lemma distinct_combinations2:
  "distinct xs \<Longrightarrow> distinct (combinations2 xs)"
proof (induction xs)
  case Nil
  then show ?case by simp
next
  case (Cons x xs)
  have "distinct (map (Pair x) xs)"
    using Cons.prems by (simp add: distinct_map inj_on_def)
  moreover have "set (map (Pair x) xs) \<inter> set (combinations2 xs) = {}"
    using Cons.prems set_combinations2_subset by fastforce
  ultimately show ?case using Cons by simp
qed

lemma combinations2_not_swapped:
  "distinct xs \<Longrightarrow> (a, b) \<in> set (combinations2 xs) \<Longrightarrow>
     (b, a) \<notin> set (combinations2 xs) \<and> a \<noteq> b"
proof (induction xs)
  case Nil
  then show ?case by simp
next
  case (Cons x xs)
  then show ?case using set_combinations2_subset[of _ _ xs] by auto
qed

lemma combinations2_covers:
  "a \<in> set xs \<Longrightarrow> b \<in> set xs \<Longrightarrow> a \<noteq> b \<Longrightarrow>
     (a, b) \<in> set (combinations2 xs) \<or> (b, a) \<in> set (combinations2 xs)"
  by (induction xs) auto

lemma combinations2_sorted:
  "sorted xs \<Longrightarrow> distinct xs \<Longrightarrow> (a, b) \<in> set (combinations2 xs) \<Longrightarrow> a < b"
proof (induction xs)
  case Nil
  then show ?case by simp
next
  case (Cons x xs)
  then show ?case by (auto simp: less_le)
qed

text \<open>
  What both enumerations share: for \<open>n\<close> distinct tickers, \<open>n * (n - 1) / 2\<close> pairs, no
  pair twice, no pair in both orders, and every two different tickers in one pair.
\<close>

lemma scan_pairs_count:
  assumes "distinct basket_tickers"
  shows "length (scan_pairs basket_tickers)
           = length basket_tickers * (length basket_tickers - 1) div 2"
    and "distinct (scan_pairs basket_tickers)"
    and "(a, b) \<in> set (scan_pairs basket_tickers) \<Longrightarrow>
           (b, a) \<notin> set (scan_pairs basket_tickers) \<and> a \<noteq> b"
    and "x \<in> set basket_tickers \<Longrightarrow> y \<in> set basket_tickers \<Longrightarrow> x \<noteq> y \<Longrightarrow>
           (x, y) \<in> set (scan_pairs basket_tickers) \<or> (y, x) \<in> set (scan_pairs basket_tickers)"
  using assms
  by (simp_all add: scan_pairs_def length_combinations2 distinct_combinations2
      combinations2_not_swapped combinations2_covers)

text \<open>
  The pages enumerate \<^verbatim>\<open>combinations(sorted(valid_tickers), 2)\<close>: there every pair has
  its lexically smaller ticker first, and each unordered pair appears exactly once.
\<close>

lemma page_pairs_spec:
  assumes "distinct valid_tickers"
  shows "length (page_pairs valid_tickers)
           = length valid_tickers * (length valid_tickers - 1) div 2"
    and "distinct (page_pairs valid_tickers)"
    and "(a, b) \<in> set (page_pairs valid_tickers) \<Longrightarrow>
           a < b \<and> (b, a) \<notin> set (page_pairs valid_tickers)"
    and "x \<in> set valid_tickers \<Longrightarrow> y \<in> set valid_tickers \<Longrightarrow> x < y \<Longrightarrow>
           (x, y) \<in> set (page_pairs valid_tickers)"
proof -
  have d: "distinct (sort valid_tickers)" and s: "sorted (sort valid_tickers)"
    using assms by simp_all
  show "length (page_pairs valid_tickers)
          = length valid_tickers * (length valid_tickers - 1) div 2"
    by (simp add: page_pairs_def length_combinations2)
  show "distinct (page_pairs valid_tickers)"
    using d by (simp add: page_pairs_def distinct_combinations2)
  show "a < b \<and> (b, a) \<notin> set (page_pairs valid_tickers)"
    if "(a, b) \<in> set (page_pairs valid_tickers)"
    using that combinations2_sorted[OF s d] combinations2_not_swapped[OF d]
    by (auto simp: page_pairs_def)
  show "(x, y) \<in> set (page_pairs valid_tickers)"
    if "x \<in> set valid_tickers" "y \<in> set valid_tickers" "x < y"
  proof -
    have "(x, y) \<in> set (combinations2 (sort valid_tickers))
        \<or> (y, x) \<in> set (combinations2 (sort valid_tickers))"
      using that by (intro combinations2_covers) auto
    moreover have "(y, x) \<notin> set (combinations2 (sort valid_tickers))"
      using combinations2_sorted[OF s d, of y x] that by auto
    ultimately show ?thesis by (simp add: page_pairs_def)
  qed
qed

text \<open>
  Claim C3 on \<^verbatim>\<open>scan_pairs_in_basket\<close>: the scanner enumerates
  \<^verbatim>\<open>combinations(basket_tickers, 2)\<close> without sorting. For the basket
  \<^verbatim>\<open>eth_l1_core\<close> of \<^verbatim>\<open>config/universe.py\<close>, normalised, it produces the three pairs
  (ETH, ETC), (ETH, BTC), (ETC, BTC), none of which has its lexically smaller ticker
  first; the page, which sorts, produces (BTC, ETC), (BTC, ETH), (ETC, ETH).
\<close>

theorem scan_pairs_not_lexically_ordered:
  "scan_pairs (normalize_symbols [''ETHUSD'', ''ETCUSD'', ''BTCUSD'']) =
     [(''ETH/USDT:USDT'', ''ETC/USDT:USDT''), (''ETH/USDT:USDT'', ''BTC/USDT:USDT''),
      (''ETC/USDT:USDT'', ''BTC/USDT:USDT'')] \<and>
   \<not> (''ETH/USDT:USDT'' < ''ETC/USDT:USDT'') \<and>
   \<not> (''ETH/USDT:USDT'' < ''BTC/USDT:USDT'') \<and>
   \<not> (''ETC/USDT:USDT'' < ''BTC/USDT:USDT'') \<and>
   page_pairs (normalize_symbols [''ETHUSD'', ''ETCUSD'', ''BTCUSD'']) =
     [(''BTC/USDT:USDT'', ''ETC/USDT:USDT''), (''BTC/USDT:USDT'', ''ETH/USDT:USDT''),
      (''ETC/USDT:USDT'', ''ETH/USDT:USDT'')]"
proof -
  have n: "normalize_symbols [''ETHUSD'', ''ETCUSD'', ''BTCUSD'']
      = [''ETH/USDT:USDT'', ''ETC/USDT:USDT'', ''BTC/USDT:USDT'']"
    by (simp add: normalize_symbols_def to_ccxt_symbol_def str_upper_def str_strip_def
        upper_char_def is_space_def endswith_def Let_def)
  show ?thesis
    unfolding n by (simp add: scan_pairs_def page_pairs_def less_char_def less_eq_char_def)
qed

section \<open>The latest rolling correlation\<close>

lemma pair_corr_latest_nonempty:
  assumes "a \<in> set (columns logret)" and "b \<in> set (columns logret)"
    and "0 \<le> window" and "0 < nrows logret"
  shows "pair_corr_latest logret a b window =
     Inr (roll_corr_at (nat window) (map (cell logret a) [0..<nrows logret])
            (map (cell logret b) [0..<nrows logret]) (nrows logret - 1))"
  using assms
  by (simp add: pair_corr_latest_def rolling_corr_def getitem_def bind_def
      rolling_corr_series_def iloc_last_def last_map last_upt)

text \<open>
  Claim C4 on the code: when the log-return table has the two columns and no row, the
  rolling correlation series is empty and \<^verbatim>\<open>.iloc[-1]\<close> raises \<^verbatim>\<open>IndexError\<close>;
  \<^verbatim>\<open>pair_corr_latest\<close> does not return NaN.
\<close>

theorem pair_corr_latest_empty_raises:
  assumes "a \<in> set (columns logret)" and "b \<in> set (columns logret)"
    and "0 \<le> window" and "nrows logret = 0"
  shows "pair_corr_latest logret a b window = Inl IndexError"
  using assms
  by (simp add: pair_corr_latest_def rolling_corr_def getitem_def bind_def
      rolling_corr_series_def iloc_last_def)

theorem pair_corr_latest_empty_raises_witness:
  "pair_corr_latest empty_logret ''BTC/USDT:USDT'' ''ETH/USDT:USDT'' 240 = Inl IndexError"
  using pair_corr_latest_empty_raises
    [of "''BTC/USDT:USDT''" empty_logret "''ETH/USDT:USDT''" 240]
  by (simp add: empty_logret_def)

section \<open>The basket return\<close>

lemma foldl_fadd_Fin: "foldl fadd (Fin a0) (map Fin xs) = Fin (a0 + sum_list xs)"
  by (induction xs arbitrary: a0) (simp_all add: add.assoc)

lemma nanmean_finite:
  assumes "xs \<noteq> []"
  shows "nanmean (map Fin xs) = Fin (sum_list xs / real (length xs))"
proof -
  have "filter (\<lambda>x. \<not> isnan x) (map Fin xs) = map Fin xs"
    by (induction xs) simp_all
  then show ?thesis using assms
    by (simp add: nanmean_def foldl_fadd_Fin)
qed

lemma basket_return_raises_iff:
  "basket_return logret tickers = Inl e \<longleftrightarrow>
     e = ValueError \<and> (\<exists>t \<in> set tickers. t \<notin> set (columns logret))"
  by (auto simp: basket_return_def Let_def filter_empty_conv)

lemma basket_return_present:
  assumes "\<forall>t \<in> set tickers. t \<in> set (columns logret)"
  shows "basket_return logret tickers =
     Inr (map (\<lambda>i. nanmean (map (\<lambda>t. cell logret t i) tickers)) [0..<nrows logret])"
  using assms by (simp add: basket_return_def Let_def filter_empty_conv)

lemma basket_return_row_mean:
  assumes "basket_return logret tickers = Inr s" and "i < nrows logret" and "tickers \<noteq> []"
    and "\<forall>t \<in> set tickers. cell logret t i = Fin (v t)"
  shows "s ! i = Fin (sum_list (map v tickers) / real (length tickers))"
proof -
  have s: "s = map (\<lambda>i. nanmean (map (\<lambda>t. cell logret t i) tickers)) [0..<nrows logret]"
    using assms(1) by (auto simp: basket_return_def Let_def split: if_splits)
  have "map (\<lambda>t. cell logret t i) tickers = map Fin (map v tickers)"
    using assms(4) by (simp add: map_eq_conv)
  then have "nanmean (map (\<lambda>t. cell logret t i) tickers)
      = Fin (sum_list (map v tickers) / real (length tickers))"
    using nanmean_finite[of "map v tickers"] assms(3) by (simp del: map_map)
  then show ?thesis using assms(2) s by simp
qed

text \<open>
  Claim C7. \<^verbatim>\<open>basket_return\<close> raises exactly when a requested ticker is no column of
  the log-return table, and then it raises \<^verbatim>\<open>ValueError\<close>. When all requested tickers
  are columns (two of them, for instance) it returns one value per row: the mean of the
  tickers' cells of that row, which pandas takes over the cells that are not NaN. For a
  row whose cells are all numbers this is their sum divided by the number of tickers.
\<close>

theorem basket_return_spec:
  "((\<exists>e. basket_return logret tickers = Inl e) \<longleftrightarrow>
      (\<exists>t \<in> set tickers. t \<notin> set (columns logret))) \<and>
   (basket_return logret tickers = Inl e \<longrightarrow> e = ValueError) \<and>
   ((\<forall>t \<in> set tickers. t \<in> set (columns logret)) \<longrightarrow>
      basket_return logret tickers =
        Inr (map (\<lambda>i. nanmean (map (\<lambda>t. cell logret t i) tickers)) [0..<nrows logret])) \<and>
   (a \<in> set (columns logret) \<and> b \<in> set (columns logret) \<longrightarrow>
      (\<exists>s. basket_return logret [a, b] = Inr s \<and> length s = nrows logret)) \<and>
   (basket_return logret tickers = Inr s \<and> i < nrows logret \<and> tickers \<noteq> [] \<and>
      (\<forall>t \<in> set tickers. cell logret t i = Fin (v t)) \<longrightarrow>
      s ! i = Fin (sum_list (map v tickers) / real (length tickers)))"
proof -
  have "(\<exists>e. basket_return logret tickers = Inl e) \<longleftrightarrow>
      (\<exists>t \<in> set tickers. t \<notin> set (columns logret))"
    by (auto simp: basket_return_raises_iff)
  moreover have "basket_return logret tickers = Inl e \<longrightarrow> e = ValueError"
    by (simp add: basket_return_raises_iff)
  moreover have "(\<forall>t \<in> set tickers. t \<in> set (columns logret)) \<longrightarrow>
      basket_return logret tickers =
        Inr (map (\<lambda>i. nanmean (map (\<lambda>t. cell logret t i) tickers)) [0..<nrows logret])"
    using basket_return_present by blast
  moreover have "a \<in> set (columns logret) \<and> b \<in> set (columns logret) \<longrightarrow>
      (\<exists>s. basket_return logret [a, b] = Inr s \<and> length s = nrows logret)"
    by (simp add: basket_return_present)
  moreover have "basket_return logret tickers = Inr s \<and> i < nrows logret \<and> tickers \<noteq> [] \<and>
      (\<forall>t \<in> set tickers. cell logret t i = Fin (v t)) \<longrightarrow>
      s ! i = Fin (sum_list (map v tickers) / real (length tickers))"
    using basket_return_row_mean by blast
  ultimately show ?thesis by blast
qed

theorem basket_return_spec_witness:
  "basket_return sample_logret [''BTC/USDT:USDT'', ''ETH/USDT:USDT''] = Inr [NaN, Fin 3] \<and>
   basket_return sample_logret [''BTC/USDT:USDT'', ''SOL/USDT:USDT''] = Inl ValueError"
proof -
  have cols: "\<forall>t \<in> set [''BTC/USDT:USDT'', ''ETH/USDT:USDT'']. t \<in> set (columns sample_logret)"
    by (simp add: sample_logret_def)
  have "basket_return sample_logret [''BTC/USDT:USDT'', ''ETH/USDT:USDT''] =
      Inr (map (\<lambda>i. nanmean (map (\<lambda>t. cell sample_logret t i)
                 [''BTC/USDT:USDT'', ''ETH/USDT:USDT''])) [0..<nrows sample_logret])"
    using cols basket_return_spec [of sample_logret "[''BTC/USDT:USDT'', ''ETH/USDT:USDT'']"]
    by blast
  then have ok: "basket_return sample_logret [''BTC/USDT:USDT'', ''ETH/USDT:USDT'']
      = Inr [NaN, Fin 3]"
    by (simp add: sample_logret_def nanmean_def upt_rec)
  have "\<exists>t \<in> set [''BTC/USDT:USDT'', ''SOL/USDT:USDT'']. t \<notin> set (columns sample_logret)"
    by (simp add: sample_logret_def)
  then obtain e where e: "basket_return sample_logret [''BTC/USDT:USDT'', ''SOL/USDT:USDT''] = Inl e"
    using basket_return_spec [of sample_logret "[''BTC/USDT:USDT'', ''SOL/USDT:USDT'']"]
    by blast
  then have "e = ValueError"
    using basket_return_spec [of sample_logret "[''BTC/USDT:USDT'', ''SOL/USDT:USDT'']" e]
    by blast
  then show ?thesis using ok e by simp
qed

section \<open>The pair scan and its final sort\<close>

lemma sort_values_rejects_na_last:
  "sort_values by_cols [(''ascending'', PyBool False), (''na_last'', PyBool True)] df
     = Inl TypeError"
  by (simp add: sort_values_def sort_values_keywords_def)

lemma scan_pairs_in_basket_cases:
  "scan_pairs_in_basket p b s =
     (if scan_pairs_loop p (log_returns p) s (scan_pairs b) = [] then Inr [] else Inl TypeError)"
  by (simp add: scan_pairs_in_basket_def Let_def sort_values_rejects_na_last)

lemma pair_metrics_ok:
  assumes "a \<in> set (columns p)" and "b \<in> set (columns p)"
    and "0 \<le> z_window s" and "0 \<le> analytics_window s" and "0 < nrows p"
  shows "\<exists>row. pair_metrics p (log_returns p) s a b = Inr row"
  using assms
  by (simp add: pair_metrics_def compute_spread_def getitem_def bind_def
      compute_zscore_def rolling_mean_def rolling_std_def
      series_sub_def series_div_def series_add_def series_scale_def compute_bollinger_bands_def
      detect_bollinger_breach_def series_cmp_def series_or_def pair_corr_latest_def
      rolling_corr_def rolling_corr_series_def iloc_last_def log_returns_def Let_def)

lemma scan_pairs_loop_nonempty:
  assumes "(a, b) \<in> set pairs" and "a \<in> set (columns p)" and "b \<in> set (columns p)"
    and "\<exists>row. pair_metrics p lr s a b = Inr row"
  shows "scan_pairs_loop p lr s pairs \<noteq> []"
  using assms
  by (induction pairs) (auto split: sum.splits if_splits)

text \<open>
  Claim C1 on the code: the pair scan raises. Whenever the basket holds one pair of
  tickers that are columns of a price table with at least one row, and the two window
  sizes are not negative, the loop appends a row for that pair, the table is not empty,
  and the call \<^verbatim>\<open>df.sort_values("abs_z", ascending=False, na_last=True)\<close> of line
  269 raises \<^verbatim>\<open>TypeError\<close>: \<^verbatim>\<open>na_last\<close> is no parameter of \<^verbatim>\<open>sort_values\<close>.
  The call stands outside every \<^verbatim>\<open>try\<close>, so the exception leaves the function.
\<close>

theorem scan_pairs_in_basket_raises:
  assumes "(a, b) \<in> set (scan_pairs basket_tickers)"
    and "a \<in> set (columns prices_wide)" and "b \<in> set (columns prices_wide)"
    and "0 \<le> z_window settings" and "0 \<le> analytics_window settings"
    and "0 < nrows prices_wide"
  shows "scan_pairs_in_basket prices_wide basket_tickers settings = Inl TypeError"
  using scan_pairs_loop_nonempty[OF assms(1-3) pair_metrics_ok[OF assms(2-6)]]
  by (simp add: scan_pairs_in_basket_cases)

theorem scan_pairs_in_basket_raises_witness:
  "scan_pairs_in_basket one_bar_prices [''ETH/USDT:USDT'', ''BTC/USDT:USDT''] get_settings
     = Inl TypeError"
  using scan_pairs_in_basket_raises
    [of "''ETH/USDT:USDT''" "''BTC/USDT:USDT''" "[''ETH/USDT:USDT'', ''BTC/USDT:USDT'']"
        one_bar_prices get_settings]
  by (simp add: one_bar_prices_def get_settings_def scan_pairs_def)

text \<open>
  Claim C6 on the code: \<^verbatim>\<open>scan_pairs_in_basket\<close> never returns a table ordered by
  \<open>|z|\<close>, because its sort call raises (the defect of claim C1): for every input the
  result is the \<^verbatim>\<open>TypeError\<close> or the empty table. For the three tickers of
  \<^verbatim>\<open>eth_l1_core\<close> on a table with one bar it is the \<^verbatim>\<open>TypeError\<close>.
\<close>

theorem scan_pairs_in_basket_never_sorted:
  "(scan_pairs_in_basket p b s = Inl TypeError \<or> scan_pairs_in_basket p b s = Inr []) \<and>
   scan_pairs_in_basket one_bar_prices
     [''ETH/USDT:USDT'', ''ETC/USDT:USDT'', ''BTC/USDT:USDT''] get_settings = Inl TypeError"
proof -
  have "\<exists>row. pair_metrics one_bar_prices (log_returns one_bar_prices) get_settings
      ''ETH/USDT:USDT'' ''ETC/USDT:USDT'' = Inr row"
    by (rule pair_metrics_ok) (simp_all add: one_bar_prices_def get_settings_def)
  then have "scan_pairs_loop one_bar_prices (log_returns one_bar_prices) get_settings
      (scan_pairs [''ETH/USDT:USDT'', ''ETC/USDT:USDT'', ''BTC/USDT:USDT'']) \<noteq> []"
    by (intro scan_pairs_loop_nonempty[of "''ETH/USDT:USDT''" "''ETC/USDT:USDT''"])
       (simp_all add: scan_pairs_def one_bar_prices_def)
  then show ?thesis by (simp add: scan_pairs_in_basket_cases)
qed

text \<open>
  The page's sort passes \<^verbatim>\<open>na_position="last"\<close> and does order its table: by \<open>|z|\<close>
  descending, rows with NaN after all rows with a number.
\<close>

lemma float_rank_desc_le:
  "float_rank False True x \<le> float_rank False True y \<longleftrightarrow>
     isnan y \<or> (\<not> isnan x \<and> \<not> isnan y \<and> fge x y)"
  by (cases x; cases y) (auto simp: float_rank_def less_eq_prod_def fge_def)

lemma float_rank_inj: "float_rank asc na x = float_rank asc na y \<longleftrightarrow> x = y"
  by (cases x; cases y) (auto simp: float_rank_def)

lemma sort_values_desc_last:
  "sort_values [k] [(''ascending'', PyBool False), (''na_position'', PyStr ''last'')] df =
     Inr (sort_key (\<lambda>row. [float_rank False True (k row)]) df)"
  by (simp add: sort_values_def sort_values_keywords_def kw_ascending_def kw_na_last_def
      bind_def row_rank_def[abs_def])

lemma sort_values_desc2_last:
  "sort_values [k1, k2]
     [(''ascending'', PyBoolList [False, False]), (''na_position'', PyStr ''last'')] df =
     Inr (sort_key (\<lambda>row. [float_rank False True (k1 row), float_rank False True (k2 row)]) df)"
  by (simp add: sort_values_def sort_values_keywords_def kw_ascending_def kw_na_last_def
      bind_def row_rank_def[abs_def])

lemma sorted_key_nth:
  assumes "i < j" and "j < length xs"
  shows "f (sort_key f xs ! i) \<le> f (sort_key f xs ! j)"
proof -
  have "sorted (map f (sort_key f xs))" by (rule sorted_sort_key)
  then have "map f (sort_key f xs) ! i \<le> map f (sort_key f xs) ! j"
    using assms by (intro sorted_nth_mono) simp_all
  then show ?thesis using assms by simp
qed

lemma rank1_le:
  fixes a b :: "'a::linorder"
  shows "[a] \<le> [b] \<longleftrightarrow> a \<le> b"
  by (auto simp: order_le_less)

lemma rank2_le:
  fixes a1 a2 b1 b2 :: "'a::linorder"
  shows "[a1, a2] \<le> [b1, b2] \<longleftrightarrow> a1 < b1 \<or> (a1 = b1 \<and> a2 \<le> b2)"
  by (auto simp: order_le_less)

lemma page_df_view_abs_z_ordered:
  "\<exists>df. page_df_view df_all only_opportunities min_correlation min_abs_z AbsZDesc = Inr df \<and>
     (\<forall>i j. i < j \<and> j < length df \<longrightarrow>
        (isnan (fabs (row_z (df ! i))) \<longrightarrow> isnan (fabs (row_z (df ! j)))) \<and>
        (\<not> isnan (fabs (row_z (df ! j))) \<longrightarrow>
           fge (fabs (row_z (df ! i))) (fabs (row_z (df ! j)))))"
proof -
  define rows where "rows =
     filter (\<lambda>row. fge (fabs (row_z row)) min_abs_z)
       (filter (\<lambda>row. fge (row_corr row) min_correlation)
         (if only_opportunities then filter row_opportunity df_all else df_all))"
  define K where "K = (\<lambda>row :: page_row. [float_rank False True (fabs (row_z row))])"
  have eq: "page_df_view df_all only_opportunities min_correlation min_abs_z AbsZDesc
      = Inr (sort_key K rows)"
    by (simp add: page_df_view_def Let_def sort_values_desc_last rows_def K_def)
  have "(isnan (fabs (row_z (sort_key K rows ! i)))
           \<longrightarrow> isnan (fabs (row_z (sort_key K rows ! j)))) \<and>
        (\<not> isnan (fabs (row_z (sort_key K rows ! j))) \<longrightarrow>
           fge (fabs (row_z (sort_key K rows ! i))) (fabs (row_z (sort_key K rows ! j))))"
    if "i < j" "j < length (sort_key K rows)" for i j
  proof -
    have "K (sort_key K rows ! i) \<le> K (sort_key K rows ! j)"
      using that by (intro sorted_key_nth) simp_all
    then have "float_rank False True (fabs (row_z (sort_key K rows ! i)))
        \<le> float_rank False True (fabs (row_z (sort_key K rows ! j)))"
      unfolding K_def by (simp only: rank1_le)
    then show ?thesis by (auto simp: float_rank_desc_le)
  qed
  then show ?thesis using eq by blast
qed

section \<open>The basket scan\<close>

lemma scan_baskets_result:
  "scan_baskets p b s l =
     Inr (sort_key (\<lambda>row. [float_rank False True (br_basket_vol row),
                            float_rank False True (Fin (real (br_opp_count row)))])
            (map (\<lambda>(basket_name, tickers_raw).
                    scan_basket_row p (log_returns p) s l basket_name tickers_raw) b))"
  by (cases "b = []") (simp_all add: scan_baskets_def Let_def sort_values_desc2_last)

lemma vol_opp_order:
  fixes r1 r2 :: basket_row
  assumes "[float_rank False True (br_basket_vol r1),
            float_rank False True (Fin (real (br_opp_count r1)))]
       \<le> [float_rank False True (br_basket_vol r2),
            float_rank False True (Fin (real (br_opp_count r2)))]"
  shows "(isnan (br_basket_vol r1) \<longrightarrow> isnan (br_basket_vol r2)) \<and>
         (\<not> isnan (br_basket_vol r2) \<longrightarrow> fge (br_basket_vol r1) (br_basket_vol r2)) \<and>
         (br_basket_vol r1 = br_basket_vol r2 \<longrightarrow> br_opp_count r2 \<le> br_opp_count r1)"
proof -
  from assms have c:
    "float_rank False True (br_basket_vol r1) < float_rank False True (br_basket_vol r2)
      \<or> (float_rank False True (br_basket_vol r1) = float_rank False True (br_basket_vol r2)
          \<and> float_rank False True (Fin (real (br_opp_count r1)))
              \<le> float_rank False True (Fin (real (br_opp_count r2))))"
    by (simp only: rank2_le)
  have le: "float_rank False True (br_basket_vol r1) \<le> float_rank False True (br_basket_vol r2)"
    using c by auto
  have nan_last: "isnan (br_basket_vol r1) \<longrightarrow> isnan (br_basket_vol r2)"
    using le by (auto simp: float_rank_desc_le)
  have desc: "\<not> isnan (br_basket_vol r2) \<longrightarrow> fge (br_basket_vol r1) (br_basket_vol r2)"
    using le by (auto simp: float_rank_desc_le)
  have ties: "br_basket_vol r1 = br_basket_vol r2 \<longrightarrow> br_opp_count r2 \<le> br_opp_count r1"
    using c by (auto simp: float_rank_desc_le fge_def)
  show ?thesis using nan_last desc ties by blast
qed

lemma filter_key_distinct:
  "distinct (map fst xs) \<Longrightarrow> (k, v) \<in> set xs \<Longrightarrow> filter (\<lambda>p. fst p = k) xs = [(k, v)]"
proof (induction xs)
  case Nil
  then show ?case by simp
next
  case (Cons x xs)
  show ?case
  proof (cases "x = (k, v)")
    case True
    then have "k \<notin> fst ` set xs" using Cons.prems by auto
    then have "filter (\<lambda>p. fst p = k) xs = []" by (auto simp: filter_empty_conv)
    then show ?thesis using True by simp
  next
    case False
    then have in_xs: "(k, v) \<in> set xs" using Cons.prems by auto
    then have "k \<in> fst ` set xs" by force
    then have "fst x \<noteq> k" using Cons.prems(1) by auto
    then show ?thesis using Cons.IH in_xs Cons.prems by simp
  qed
qed

lemma scan_basket_row_name:
  "br_basket (scan_basket_row p lr s l name raw) = name"
  by (simp add: scan_basket_row_def Let_def)

lemma scan_basket_row_few:
  "length (valid_tickers_of p raw) < 2 \<Longrightarrow>
   scan_basket_row p lr s l name raw =
     \<lparr>br_basket = name, br_n_tickers = length (valid_tickers_of p raw), br_basket_vol = NaN,
      br_opp_count = 0, br_top_movers = []\<rparr>"
  by (simp add: scan_basket_row_def Let_def)

lemma valid_tickers_fan_tokens:
  "valid_tickers_of flat_prices [''CHZUSD'', ''ASRUSD'', ''BTCUSD''] = [''BTC/USDT:USDT'']"
  by (simp add: valid_tickers_of_def flat_prices_def normalize_symbols_def to_ccxt_symbol_def
      str_upper_def str_strip_def upper_char_def is_space_def endswith_def Let_def)

lemma valid_tickers_eth_l1_core:
  "valid_tickers_of flat_prices [''ETHUSD'', ''ETCUSD'', ''BTCUSD'']
     = [''ETH/USDT:USDT'', ''BTC/USDT:USDT'']"
  by (simp add: valid_tickers_of_def flat_prices_def normalize_symbols_def to_ccxt_symbol_def
      str_upper_def str_strip_def upper_char_def is_space_def endswith_def Let_def)

lemma scan_basket_row_eth_l1_core:
  "scan_basket_row flat_prices (log_returns flat_prices) get_settings 24 ''eth_l1_core''
     [''ETHUSD'', ''ETCUSD'', ''BTCUSD'']
   = \<lparr>br_basket = ''eth_l1_core'', br_n_tickers = 2, br_basket_vol = Fin 0, br_opp_count = 0,
      br_top_movers = ''ETH/USDT:USDT, BTC/USDT:USDT''\<rparr>"
proof -
  have upt3: "[0..<3] = [0, 1, 2]" by (simp add: upt_rec)
  have vol: "basket_vol_value (log_returns flat_prices) [''ETH/USDT:USDT'', ''BTC/USDT:USDT'']
      get_settings = Fin 0"
    by (simp add: basket_vol_value_def basket_return_def log_returns_def flat_prices_def
        get_settings_def Let_def nanmean_def upt3 series_std_def sample_var_def mean_of_def)
  have movers: "top_movers_value (log_returns flat_prices) [''ETH/USDT:USDT'', ''BTC/USDT:USDT''] 24
      = ''ETH/USDT:USDT, BTC/USDT:USDT''"
    by (simp add: top_movers_value_def log_returns_def flat_prices_def Let_def upt3 nansum_def
        nlargest_def float_rank_def)
  show ?thesis
    by (simp add: scan_basket_row_def valid_tickers_eth_l1_core Let_def vol movers)
       (simp add: get_settings_def flat_prices_def)
qed

lemma scan_baskets_flat_prices:
  "scan_baskets flat_prices two_baskets get_settings 24 =
     Inr [\<lparr>br_basket = ''eth_l1_core'', br_n_tickers = 2, br_basket_vol = Fin 0,
           br_opp_count = 0, br_top_movers = ''ETH/USDT:USDT, BTC/USDT:USDT''\<rparr>,
          \<lparr>br_basket = ''fan_tokens'', br_n_tickers = 1, br_basket_vol = NaN,
           br_opp_count = 0, br_top_movers = []\<rparr>]"
  by (simp add: scan_baskets_result two_baskets_def scan_basket_row_eth_l1_core
      scan_basket_row_few valid_tickers_fan_tokens float_rank_def)

text \<open>
  Claim C8. For every basket of the configuration (a dict, so the names are distinct)
  whose valid tickers number fewer than 2, \<^verbatim>\<open>scan_baskets\<close> returns a table, and the
  table holds exactly one row for that basket: its count of valid tickers, NaN as the
  volatility, 0 opportunities and the empty string for the top movers. The row does not
  depend on the prices, the settings or the lookback: nothing else is computed for it.
\<close>

theorem scan_baskets_few_tickers:
  assumes "distinct (map fst baskets)" and "(name, tickers_raw) \<in> set baskets"
    and "length (valid_tickers_of prices_wide tickers_raw) < 2"
  shows "\<exists>df. scan_baskets prices_wide baskets settings lookback_bars = Inr df \<and>
     filter (\<lambda>row. br_basket row = name) df =
       [\<lparr>br_basket = name, br_n_tickers = length (valid_tickers_of prices_wide tickers_raw),
         br_basket_vol = NaN, br_opp_count = 0, br_top_movers = []\<rparr>]"
proof -
  let ?f = "\<lambda>(basket_name, raw).
     scan_basket_row prices_wide (log_returns prices_wide) settings lookback_bars basket_name raw"
  let ?K = "\<lambda>row. [float_rank False True (br_basket_vol row),
                    float_rank False True (Fin (real (br_opp_count row)))]"
  have "filter (\<lambda>row. br_basket row = name) (map ?f baskets)
      = map ?f (filter (\<lambda>p. fst p = name) baskets)"
    by (simp add: filter_map comp_def case_prod_beta scan_basket_row_name)
  also have "\<dots> = [?f (name, tickers_raw)]"
    using filter_key_distinct[OF assms(1,2)] by simp
  finally have "filter (\<lambda>row. br_basket row = name) (sort_key ?K (map ?f baskets))
      = [?f (name, tickers_raw)]"
    by (simp add: filter_sort)
  then show ?thesis
    using scan_basket_row_few[OF assms(3)] by (simp add: scan_baskets_result)
qed

theorem scan_baskets_few_tickers_witness:
  "\<exists>df. scan_baskets flat_prices two_baskets get_settings 24 = Inr df \<and>
     filter (\<lambda>row. br_basket row = ''fan_tokens'') df =
       [\<lparr>br_basket = ''fan_tokens'', br_n_tickers = 1, br_basket_vol = NaN,
         br_opp_count = 0, br_top_movers = []\<rparr>]"
proof -
  have d: "distinct (map fst two_baskets)"
    by (simp add: two_baskets_def)
  have m: "(''fan_tokens'', [''CHZUSD'', ''ASRUSD'', ''BTCUSD'']) \<in> set two_baskets"
    by (simp add: two_baskets_def)
  have n: "length (valid_tickers_of flat_prices [''CHZUSD'', ''ASRUSD'', ''BTCUSD'']) < 2"
    by (simp add: valid_tickers_fan_tokens)
  show ?thesis
    using scan_baskets_few_tickers [OF d m n, of get_settings 24]
    by (simp add: valid_tickers_fan_tokens)
qed

text \<open>
  Claim C9. \<^verbatim>\<open>scan_baskets\<close> always returns a table, with the rows computed for the
  baskets in some order. Of two rows, the one that comes first has the larger or equal
  volatility when the later one has a number as its volatility; a row with NaN as its
  volatility is followed by such rows only, whatever the opportunity counts; and of two
  rows with the same volatility (both NaN included) the first has the larger or equal
  opportunity count.
\<close>

theorem scan_baskets_sorted:
  "\<exists>df. scan_baskets prices_wide baskets settings lookback_bars = Inr df \<and>
     mset df = mset (map (\<lambda>(basket_name, tickers_raw).
                 scan_basket_row prices_wide (log_returns prices_wide) settings lookback_bars
                   basket_name tickers_raw) baskets) \<and>
     (\<forall>i j. i < j \<and> j < length df \<longrightarrow>
        (isnan (br_basket_vol (df ! i)) \<longrightarrow> isnan (br_basket_vol (df ! j))) \<and>
        (\<not> isnan (br_basket_vol (df ! j)) \<longrightarrow>
           fge (br_basket_vol (df ! i)) (br_basket_vol (df ! j))) \<and>
        (br_basket_vol (df ! i) = br_basket_vol (df ! j) \<longrightarrow>
           br_opp_count (df ! j) \<le> br_opp_count (df ! i)))"
proof -
  define rows where "rows = map (\<lambda>(basket_name, tickers_raw).
      scan_basket_row prices_wide (log_returns prices_wide) settings lookback_bars
        basket_name tickers_raw) baskets"
  define K where "K = (\<lambda>row :: basket_row. [float_rank False True (br_basket_vol row),
                    float_rank False True (Fin (real (br_opp_count row)))])"
  define df where "df = sort_key K rows"
  have eq: "scan_baskets prices_wide baskets settings lookback_bars = Inr df"
    by (simp add: scan_baskets_result df_def K_def rows_def)
  have perm: "mset df = mset rows"
    by (simp add: df_def)
  have "(isnan (br_basket_vol (df ! i)) \<longrightarrow> isnan (br_basket_vol (df ! j))) \<and>
        (\<not> isnan (br_basket_vol (df ! j)) \<longrightarrow>
           fge (br_basket_vol (df ! i)) (br_basket_vol (df ! j))) \<and>
        (br_basket_vol (df ! i) = br_basket_vol (df ! j) \<longrightarrow>
           br_opp_count (df ! j) \<le> br_opp_count (df ! i))"
    if "i < j" "j < length df" for i j
  proof -
    have "K (df ! i) \<le> K (df ! j)"
      using that unfolding df_def by (intro sorted_key_nth) simp_all
    then show ?thesis
      unfolding K_def by (rule vol_opp_order)
  qed
  then show ?thesis using eq perm unfolding rows_def by blast
qed

theorem scan_baskets_sorted_witness:
  "\<exists>df. scan_baskets flat_prices two_baskets get_settings 24 = Inr df \<and>
     map br_basket df = [''eth_l1_core'', ''fan_tokens''] \<and>
     map br_basket_vol df = [Fin 0, NaN] \<and>
     \<not> isnan (br_basket_vol (df ! 0)) \<and> isnan (br_basket_vol (df ! 1))"
proof -
  obtain df where df: "scan_baskets flat_prices two_baskets get_settings 24 = Inr df"
    and ord: "\<forall>i j. i < j \<and> j < length df \<longrightarrow>
        (isnan (br_basket_vol (df ! i)) \<longrightarrow> isnan (br_basket_vol (df ! j))) \<and>
        (\<not> isnan (br_basket_vol (df ! j)) \<longrightarrow>
           fge (br_basket_vol (df ! i)) (br_basket_vol (df ! j))) \<and>
        (br_basket_vol (df ! i) = br_basket_vol (df ! j) \<longrightarrow>
           br_opp_count (df ! j) \<le> br_opp_count (df ! i))"
    using scan_baskets_sorted [of flat_prices two_baskets get_settings 24] by blast
  have val: "df = [\<lparr>br_basket = ''eth_l1_core'', br_n_tickers = 2, br_basket_vol = Fin 0,
           br_opp_count = 0, br_top_movers = ''ETH/USDT:USDT, BTC/USDT:USDT''\<rparr>,
          \<lparr>br_basket = ''fan_tokens'', br_n_tickers = 1, br_basket_vol = NaN,
           br_opp_count = 0, br_top_movers = []\<rparr>]"
    using df by (simp add: scan_baskets_flat_prices)
  show ?thesis
    using df ord val by auto
qed

section \<open>The z-score\<close>

lemma zscore_eq_from:
  "zscore s w = bind (rolling_mean s w) (\<lambda>m. bind (rolling_std s w) (\<lambda>sd. Inr (zscore_from s m sd)))"
  by (simp add: zscore_def zscore_from_def)

lemma compute_zscore_eq_zscore: "compute_zscore s w = zscore s w"
  by (simp add: compute_zscore_def zscore_def)

lemma length_finite_vals: "length (finite_vals xs) \<le> length xs"
  by (induction xs rule: finite_vals.induct) simp_all

lemma window_obs_warmup: "i + 1 < w \<Longrightarrow> length (window_obs w s i) < w"
proof -
  assume a: "i + 1 < w"
  have "length (window_obs w s i) \<le> length (drop (i + 1 - w) (take (i + 1) s))"
    unfolding window_obs_def by (rule length_finite_vals)
  also have "\<dots> \<le> i + 1" by simp
  finally show ?thesis using a by simp
qed

lemma rolling_warmup:
  "i + 1 < w \<Longrightarrow> roll_mean_at w s i = NaN"
  "i + 1 < w \<Longrightarrow> roll_std_at w s i = NaN"
  using window_obs_warmup[of i w s] by (simp_all add: roll_mean_at_def roll_std_at_def Let_def)

lemma zscore_from_nth:
  assumes "length m = length s" "length sd = length s" "i < length s"
  shows "zscore_from s m sd ! i = fdiv (fsub (s ! i) (m ! i)) (sd ! i)"
  using assms by (simp add: zscore_from_def series_div_def series_sub_def)

lemma length_zscore_from:
  "length m = length s \<Longrightarrow> length sd = length s \<Longrightarrow> length (zscore_from s m sd) = length s"
  by (simp add: zscore_from_def series_div_def series_sub_def)

lemma fdiv_nan: "isnan a \<or> isnan b \<Longrightarrow> fdiv a b = NaN"
  by (cases a; cases b) auto

lemma fsub_nan: "isnan a \<or> isnan b \<Longrightarrow> fsub a b = NaN"
  by (cases a; cases b) (auto simp: fsub_def)

lemma fdiv_zero:
  "isnan (fdiv n (Fin 0)) \<longleftrightarrow> isnan n \<or> n = Fin 0"
  "isnan (fdiv n (Fin 0)) \<or> isinf (fdiv n (Fin 0))"
  by (cases n; auto simp: inf_of_sign_def)+




lemma finite_vals_full:
  "length (finite_vals xs) = length xs \<Longrightarrow> xs = map Fin (finite_vals xs)"
proof (induction xs)
  case Nil
  then show ?case by simp
next
  case (Cons x xs)
  have le: "length (finite_vals xs) \<le> length xs" by (rule length_finite_vals)
  show ?case using Cons le by (cases x) simp_all
qed

lemma window_obs_full:
  assumes "w \<le> length (window_obs w s i)" "0 < w" "i < length s"
  shows "s ! i = Fin (last (window_obs w s i))"
proof -
  let ?win = "drop (i + 1 - w) (take (i + 1) s)"
  have lwin: "length ?win = i + 1 - (i + 1 - w)" using assms(3) by simp
  have lw: "length ?win \<le> w" unfolding lwin by arith
  have "length (finite_vals ?win) \<le> length ?win" by (rule length_finite_vals)
  moreover have "w \<le> length (finite_vals ?win)" using assms(1) by (simp add: window_obs_def)
  ultimately have eq: "length (finite_vals ?win) = length ?win"
    using lw by linarith
  have full: "?win = map Fin (window_obs w s i)"
    unfolding window_obs_def using eq by (rule finite_vals_full)
  have ne: "window_obs w s i \<noteq> []" using assms(1,2) by (cases "window_obs w s i") simp_all
  have wne: "?win \<noteq> []" using full ne by auto
  have "last ?win = last (take (i + 1) s)"
    using wne by (simp add: last_drop)
  also have "\<dots> = s ! i"
    using assms(3) by (simp add: take_Suc_conv_app_nth)
  finally have "last ?win = s ! i" .
  moreover have "last ?win = Fin (last (window_obs w s i))"
    using full ne by (metis last_map)
  ultimately show ?thesis by simp
qed

lemma sum_squares_zero:
  "sum_list (map (\<lambda>x. (x - c)\<^sup>2) obs) = 0 \<Longrightarrow> x \<in> set obs \<Longrightarrow> x = (c::real)"
proof (induction obs)
  case Nil
  then show ?case by simp
next
  case (Cons a obs)
  have nn: "0 \<le> sum_list (map (\<lambda>x. (x - c)\<^sup>2) obs)"
    by (rule sum_list_nonneg) auto
  have "(a - c)\<^sup>2 + sum_list (map (\<lambda>x. (x - c)\<^sup>2) obs) = 0"
    using Cons.prems(1) by simp
  then have "(a - c)\<^sup>2 = 0 \<and> sum_list (map (\<lambda>x. (x - c)\<^sup>2) obs) = 0"
    using nn by (simp add: add_nonneg_eq_0_iff)
  then show ?case using Cons by auto
qed

lemma sample_var_zero:
  assumes "sample_var obs = 0" "1 < length obs" "x \<in> set obs"
  shows "x = mean_of obs"
proof -
  have "real (length obs) - 1 \<noteq> 0" using assms(2) by simp
  then have "sum_list (map (\<lambda>x. (x - mean_of obs)\<^sup>2) obs) = 0"
    using assms(1) by (simp add: sample_var_def)
  then show ?thesis using assms(3) by (rule sum_squares_zero)
qed

lemma window_obs_positive:
  assumes "1 < length (window_obs w s i)" "w \<le> length (window_obs w s i)"
  shows "0 < w" "window_obs w s i \<noteq> []"
proof -
  show ne: "window_obs w s i \<noteq> []" using assms(1) by (cases "window_obs w s i") simp_all
  show "0 < w"
  proof (rule ccontr)
    assume "\<not> 0 < w"
    then have "window_obs w s i = []" by (simp add: window_obs_def)
    then show False using ne by simp
  qed
qed

lemma zscore_exact_zero_std:
  assumes "roll_std_at w s i = Fin 0" "i < length s"
  shows "fdiv (fsub (s ! i) (roll_mean_at w s i)) (roll_std_at w s i) = NaN"
proof -
  let ?obs = "window_obs w s i"
  have c: "w \<le> length ?obs" "1 < length ?obs" and sq: "sqrt (sample_var ?obs) = 0"
    using assms(1) by (auto simp: roll_std_at_def Let_def split: if_splits)
  have wpos: "0 < w" and ne: "?obs \<noteq> []" using window_obs_positive[OF c(2,1)] by auto
  have si: "s ! i = Fin (last ?obs)" using window_obs_full[OF c(1) wpos assms(2)] .
  have "last ?obs \<in> set ?obs" using ne by simp
  then have "last ?obs = mean_of ?obs"
    using sample_var_zero[of ?obs] sq c(2) by simp
  moreover have "roll_mean_at w s i = Fin (mean_of ?obs)"
    using c ne by (simp add: roll_mean_at_def Let_def)
  ultimately show ?thesis using si assms(1) by (simp add: fsub_def inf_of_sign_def)
qed

lemma zscore_exact_not_inf:
  assumes "i < length s"
  shows "\<not> isinf (fdiv (fsub (s ! i) (roll_mean_at w s i)) (roll_std_at w s i))"
proof (cases "w \<le> length (window_obs w s i) \<and> 1 < length (window_obs w s i)")
  case False
  then have "roll_std_at w s i = NaN" by (auto simp: roll_std_at_def Let_def)
  then show ?thesis by (cases "fsub (s ! i) (roll_mean_at w s i)") simp_all
next
  case True
  let ?obs = "window_obs w s i"
  have wpos: "0 < w" and ne: "?obs \<noteq> []" using window_obs_positive[of w s i] True by simp_all
  have si: "s ! i = Fin (last ?obs)" using window_obs_full[of w s i] True wpos assms by simp
  have m: "roll_mean_at w s i = Fin (mean_of ?obs)"
    using True ne by (simp add: roll_mean_at_def Let_def)
  have sd: "roll_std_at w s i = Fin (sqrt (sample_var ?obs))"
    using True by (simp add: roll_std_at_def Let_def)
  show ?thesis
  proof (cases "sqrt (sample_var ?obs) = 0")
    case z: True
    then have "roll_std_at w s i = Fin 0" using sd by simp
    then show ?thesis using zscore_exact_zero_std[of w s i] assms by simp
  next
    case nz: False
    then show ?thesis by (simp add: si m sd fsub_def)
  qed
qed

text \<open>
  Claim C5, as stated, is false on the code. For the series \<open>[0.0, 1e-200]\<close> and window 2
  pandas returns, in doubles, the rolling mean \<open>[NaN, 5e-201]\<close> and the rolling standard
  deviation \<open>[NaN, 0.0]\<close>: the squared deviation \<open>5e-401\<close> underflows to zero. At
  position 1 the standard deviation equals zero and the numerator does not, so the
  unguarded division gives plus infinity, not NaN.
\<close>

theorem zscore_infinite_at_zero_std:
  "zscore_from [Fin 0, Fin (1 / 10 ^ 200)] [NaN, Fin (5 / 10 ^ 201)] [NaN, Fin 0] = [NaN, PInf]"
  by (simp add: zscore_from_def series_div_def series_sub_def fsub_def inf_of_sign_def)

text \<open>
  Claim C5, amended. For every series and window \<open>w \<ge> 2\<close>, \<^verbatim>\<open>zscore\<close> (and the scanner's
  \<^verbatim>\<open>_compute_zscore\<close>) returns a series of the same length and raises nothing; the
  result is NaN at each of the first \<open>w - 1\<close> positions and wherever the rolling mean or
  the rolling standard deviation is NaN. At a position where the rolling standard
  deviation equals zero the division has no guard: the result is NaN when the series
  value minus the rolling mean is zero or NaN, and plus or minus infinity otherwise.
  With rolling statistics free of rounding, as \<open>rolling_mean\<close> and \<open>rolling_std\<close> of this
  theory are, a zero deviation comes with a zero difference, so that the z-score is NaN
  there and infinite nowhere.
\<close>

theorem zscore_spec:
  assumes "2 \<le> window"
  shows "(\<exists>m sd. rolling_mean series window = Inr m \<and> rolling_std series window = Inr sd \<and>
            zscore series window = Inr (zscore_from series m sd) \<and>
            compute_zscore series window = Inr (zscore_from series m sd) \<and>
            length (zscore_from series m sd) = length series \<and>
            (\<forall>i. i < length series \<and> i < nat window - 1 \<longrightarrow> zscore_from series m sd ! i = NaN) \<and>
            (\<forall>i. i < length series \<and> sd ! i = Fin 0 \<longrightarrow> zscore_from series m sd ! i = NaN) \<and>
            (\<forall>i. i < length series \<longrightarrow> \<not> isinf (zscore_from series m sd ! i))) \<and>
         (length mean_series = length series \<and> length std_series = length series \<and>
          i < length series \<longrightarrow>
            (isnan (mean_series ! i) \<or> isnan (std_series ! i) \<longrightarrow>
               zscore_from series mean_series std_series ! i = NaN) \<and>
            (std_series ! i = Fin 0 \<longrightarrow>
               (isnan (zscore_from series mean_series std_series ! i) \<longleftrightarrow>
                  isnan (fsub (series ! i) (mean_series ! i)) \<or>
                  fsub (series ! i) (mean_series ! i) = Fin 0) \<and>
               (isnan (zscore_from series mean_series std_series ! i) \<or>
                isinf (zscore_from series mean_series std_series ! i))))"
proof -
  define m where "m = map (roll_mean_at (nat window) series) [0..<length series]"
  define sd where "sd = map (roll_std_at (nat window) series) [0..<length series]"
  have rm: "rolling_mean series window = Inr m" and rs: "rolling_std series window = Inr sd"
    using assms by (simp_all add: rolling_mean_def rolling_std_def m_def sd_def)
  have lm: "length m = length series" and ls: "length sd = length series"
    by (simp_all add: m_def sd_def)
  have z: "zscore series window = Inr (zscore_from series m sd)"
    by (simp add: zscore_eq_from rm rs bind_def)
  have cz: "compute_zscore series window = Inr (zscore_from series m sd)"
    by (simp add: compute_zscore_eq_zscore z)
  have len: "length (zscore_from series m sd) = length series"
    using lm ls by (rule length_zscore_from)
  have nth: "zscore_from series m sd ! i
        = fdiv (fsub (series ! i) (roll_mean_at (nat window) series i))
               (roll_std_at (nat window) series i)"
    if "i < length series" for i
    using that zscore_from_nth[OF lm ls that] by (simp add: m_def sd_def)
  have warm: "zscore_from series m sd ! i = NaN"
    if "i < length series" "i < nat window - 1" for i
  proof -
    have "i + 1 < nat window" using that(2) by simp
    then have "roll_std_at (nat window) series i = NaN" by (rule rolling_warmup(2))
    then show ?thesis using nth[OF that(1)] by (simp add: fdiv_nan)
  qed
  have zero: "zscore_from series m sd ! i = NaN"
    if "i < length series" "sd ! i = Fin 0" for i
  proof -
    have "roll_std_at (nat window) series i = Fin 0" using that by (simp add: sd_def)
    then show ?thesis using nth[OF that(1)] zscore_exact_zero_std[of "nat window" series i] that(1)
      by simp
  qed
  have noinf: "\<not> isinf (zscore_from series m sd ! i)" if "i < length series" for i
    using nth[OF that] zscore_exact_not_inf[OF that, of "nat window"] by simp
  have part1: "\<exists>m sd. rolling_mean series window = Inr m \<and> rolling_std series window = Inr sd \<and>
            zscore series window = Inr (zscore_from series m sd) \<and>
            compute_zscore series window = Inr (zscore_from series m sd) \<and>
            length (zscore_from series m sd) = length series \<and>
            (\<forall>i. i < length series \<and> i < nat window - 1 \<longrightarrow> zscore_from series m sd ! i = NaN) \<and>
            (\<forall>i. i < length series \<and> sd ! i = Fin 0 \<longrightarrow> zscore_from series m sd ! i = NaN) \<and>
            (\<forall>i. i < length series \<longrightarrow> \<not> isinf (zscore_from series m sd ! i))"
    using rm rs z cz len warm zero noinf by blast
  have part2: "(isnan (mean_series ! i) \<or> isnan (std_series ! i) \<longrightarrow>
               zscore_from series mean_series std_series ! i = NaN) \<and>
            (std_series ! i = Fin 0 \<longrightarrow>
               (isnan (zscore_from series mean_series std_series ! i) \<longleftrightarrow>
                  isnan (fsub (series ! i) (mean_series ! i)) \<or>
                  fsub (series ! i) (mean_series ! i) = Fin 0) \<and>
               (isnan (zscore_from series mean_series std_series ! i) \<or>
                isinf (zscore_from series mean_series std_series ! i)))"
    if h: "length mean_series = length series" "length std_series = length series"
      "i < length series"
  proof -
    have n: "zscore_from series mean_series std_series ! i
        = fdiv (fsub (series ! i) (mean_series ! i)) (std_series ! i)"
      using h by (rule zscore_from_nth)
    have a: "isnan (mean_series ! i) \<or> isnan (std_series ! i) \<longrightarrow>
               zscore_from series mean_series std_series ! i = NaN"
      unfolding n using fsub_nan[of "series ! i" "mean_series ! i"]
        fdiv_nan[of "fsub (series ! i) (mean_series ! i)" "std_series ! i"] by auto
    have b: "std_series ! i = Fin 0 \<longrightarrow>
               (isnan (zscore_from series mean_series std_series ! i) \<longleftrightarrow>
                  isnan (fsub (series ! i) (mean_series ! i)) \<or>
                  fsub (series ! i) (mean_series ! i) = Fin 0) \<and>
               (isnan (zscore_from series mean_series std_series ! i) \<or>
                isinf (zscore_from series mean_series std_series ! i))"
      unfolding n using fdiv_zero[of "fsub (series ! i) (mean_series ! i)"] by auto
    show ?thesis using a b by blast
  qed
  show ?thesis using part1 part2 by blast
qed

theorem zscore_spec_witness:
  "zscore [Fin 1, Fin 1] 2 = Inr [NaN, NaN] \<and>
   compute_zscore [Fin 1, Fin 1] 2 = Inr [NaN, NaN] \<and>
   zscore_from [Fin 0, Fin 2] [NaN, Fin 1] [NaN, Fin 0] ! 1 = PInf"
proof -
  have w: "(2::int) \<le> 2" by simp
  obtain m sd where sd: "rolling_std [Fin 1, Fin 1] 2 = Inr sd"
    and z: "zscore [Fin 1, Fin 1] 2 = Inr (zscore_from [Fin 1, Fin 1] m sd)"
    and cz: "compute_zscore [Fin 1, Fin 1] 2 = Inr (zscore_from [Fin 1, Fin 1] m sd)"
    and len: "length (zscore_from [Fin 1, Fin 1] m sd) = length [Fin 1, Fin 1 :: pyfloat]"
    and warm: "\<forall>i. i < length [Fin 1, Fin 1 :: pyfloat] \<and> i < nat 2 - 1 \<longrightarrow>
        zscore_from [Fin 1, Fin 1] m sd ! i = NaN"
    and zero: "\<forall>i. i < length [Fin 1, Fin 1 :: pyfloat] \<and> sd ! i = Fin 0 \<longrightarrow>
        zscore_from [Fin 1, Fin 1] m sd ! i = NaN"
    using zscore_spec [OF w, where series = "[Fin 1, Fin 1]"] by blast
  have "sd ! 1 = Fin 0"
    using sd by (auto simp: rolling_std_def roll_std_at_def window_obs_def sample_var_def
        mean_of_def upt_rec Let_def)
  then have z1: "zscore_from [Fin 1, Fin 1] m sd ! 1 = NaN" using zero by simp
  have z0: "zscore_from [Fin 1, Fin 1] m sd ! 0 = NaN" using warm by simp
  have "zscore_from [Fin 1, Fin 1] m sd = [NaN, NaN]"
    using len z0 z1 by (auto simp: list_eq_iff_nth_eq less_Suc_eq)
  then have first: "zscore [Fin 1, Fin 1] 2 = Inr [NaN, NaN] \<and>
      compute_zscore [Fin 1, Fin 1] 2 = Inr [NaN, NaN]"
    using z cz by simp
  have "isnan (zscore_from [Fin 0, Fin 2] [NaN, Fin 1] [NaN, Fin 0] ! 1) \<or>
        isinf (zscore_from [Fin 0, Fin 2] [NaN, Fin 1] [NaN, Fin 0] ! 1)"
    using zscore_spec [OF w, where series = "[Fin 0, Fin 2]" and mean_series = "[NaN, Fin 1]"
        and std_series = "[NaN, Fin 0]" and i = 1] by auto
  then have "zscore_from [Fin 0, Fin 2] [NaN, Fin 1] [NaN, Fin 0] ! 1 = PInf"
    by (simp add: zscore_from_def series_div_def series_sub_def fsub_def inf_of_sign_def)
  then show ?thesis using first by simp
qed

end
